theory Spec2Isabelle
  imports Complex_Main "HOL-Library.Sublist"
begin

section \<open>Text primitives\<close>

text \<open>
  Python strings are modelled as \<^typ>\<open>string\<close>. The model covers ASCII text: the character
  classes below are the ASCII part of what \<^verbatim>\<open>str.isspace\<close>, \<^verbatim>\<open>\s\<close>, \<^verbatim>\<open>\w\<close>, \<^verbatim>\<open>\d\<close>,
  \<^verbatim>\<open>str.lower\<close> and \<^verbatim>\<open>str.upper\<close> act on; a character above 127 is treated as a caseless
  symbol that is neither white space nor a word character.
\<close>

definition is_upper :: "char \<Rightarrow> bool" where
  "is_upper c = (65 \<le> (of_char c :: nat) \<and> (of_char c :: nat) \<le> 90)"

definition is_lower :: "char \<Rightarrow> bool" where
  "is_lower c = (97 \<le> (of_char c :: nat) \<and> (of_char c :: nat) \<le> 122)"

definition is_digit :: "char \<Rightarrow> bool" where
  "is_digit c = (48 \<le> (of_char c :: nat) \<and> (of_char c :: nat) \<le> 57)"

definition is_space :: "char \<Rightarrow> bool" where
  "is_space c = ((9 \<le> (of_char c :: nat) \<and> (of_char c :: nat) \<le> 13)
                 \<or> (28 \<le> (of_char c :: nat) \<and> (of_char c :: nat) \<le> 32))"

definition is_word :: "char \<Rightarrow> bool" where
  "is_word c = (is_upper c \<or> is_lower c \<or> is_digit c \<or> c = CHR ''_'')"

definition lower_char :: "char \<Rightarrow> char" where
  "lower_char c = (if is_upper c then char_of ((of_char c :: nat) + 32) else c)"

definition upper_char :: "char \<Rightarrow> char" where
  "upper_char c = (if is_lower c then char_of ((of_char c :: nat) - 32) else c)"

definition lower :: "string \<Rightarrow> string" where
  "lower s = map lower_char s"

definition upper :: "string \<Rightarrow> string" where
  "upper s = map upper_char s"

definition strip :: "string \<Rightarrow> string" where
  "strip s = rev (dropWhile is_space (rev (dropWhile is_space s)))"

text \<open>\<^verbatim>\<open>str.split()\<close> without arguments: the maximal runs of non-space characters.\<close>

fun split_aux :: "string \<Rightarrow> string \<Rightarrow> string list" where
  "split_aux cur [] = (if cur = [] then [] else [cur])"
| "split_aux cur (c # cs) =
     (if is_space c then (if cur = [] then split_aux [] cs else cur # split_aux [] cs)
      else split_aux (cur @ [c]) cs)"

definition split :: "string \<Rightarrow> string list" where
  "split s = split_aux [] s"

text \<open>\<^verbatim>\<open>a in b\<close> on strings is the contiguous-substring test.\<close>

definition str_in :: "string \<Rightarrow> string \<Rightarrow> bool" where
  "str_in a b = sublist a b"

text \<open>Decimal rendering of an integer, as \<^verbatim>\<open>str(n)\<close> and f-strings do.\<close>

definition digit_char :: "nat \<Rightarrow> char" where
  "digit_char d = char_of (48 + d)"

fun nat_digits :: "nat \<Rightarrow> nat \<Rightarrow> string \<Rightarrow> string" where
  "nat_digits 0 n acc = acc"
| "nat_digits (Suc fuel) n acc =
     (if n < 10 then digit_char n # acc
      else nat_digits fuel (n div 10) (digit_char (n mod 10) # acc))"

definition str_nat :: "nat \<Rightarrow> string" where
  "str_nat n = nat_digits (Suc n) n []"

definition str_int :: "int \<Rightarrow> string" where
  "str_int i = (if i < 0 then CHR ''-'' # str_nat (nat (- i)) else str_nat (nat i))"

section \<open>Confidence arithmetic\<close>

text \<open>
  Confidence scores are Python floats that the code rounds to three decimals. They are
  modelled in exact rational arithmetic; \<open>round3\<close> is \<^verbatim>\<open>round(x, 3)\<close> with the tie
  rule of Python (to the even neighbour). The representation error of binary floating
  point is outside the model: where the exact value lies midway between two
  thousandths the float result can be the other neighbour.
\<close>

definition round3 :: "rat \<Rightarrow> rat" where
  "round3 x =
     (let y = x * 1000; f = \<lfloor>y\<rfloor>; d = y - of_int f
      in of_int (if d < 1 / 2 then f else if 1 / 2 < d then f + 1
                 else if even f then f else f + 1) / 1000)"

section \<open>Regular expressions\<close>

text \<open>
  The fragment of Python's \<^verbatim>\<open>re\<close> syntax that the patterns of the agents use: literal
  text, a character class, the word boundary \<^verbatim>\<open>\b\<close>, sequence, the greedy optional
  \<^verbatim>\<open>r?\<close> and the greedy repetition \<^verbatim>\<open>[..]*\<close> of a character class. A matcher state is
  the character before the current position (\<open>None\<close> at the start of the text) and the
  text still to be read. \<open>rmatch\<close> lists the states in which a match of the expression
  can end, in the order in which the backtracking matcher of Python tries them.
\<close>

datatype regex =
    Lit string
  | Cls "char \<Rightarrow> bool"
  | WordB
  | Seq regex regex
  | Opt regex
  | Many "char \<Rightarrow> bool"

type_synonym mstate = "char option \<times> string"

definition is_word_opt :: "char option \<Rightarrow> bool" where
  "is_word_opt p = (case p of None \<Rightarrow> False | Some c \<Rightarrow> is_word c)"

definition next_char :: "string \<Rightarrow> char option" where
  "next_char s = (case s of [] \<Rightarrow> None | c # _ \<Rightarrow> Some c)"

fun lit_match :: "string \<Rightarrow> mstate \<Rightarrow> mstate list" where
  "lit_match [] st = [st]"
| "lit_match (c # cs) (p, []) = []"
| "lit_match (c # cs) (p, d # ds) = (if c = d then lit_match cs (Some d, ds) else [])"

fun cls_match :: "(char \<Rightarrow> bool) \<Rightarrow> mstate \<Rightarrow> mstate list" where
  "cls_match P (p, []) = []"
| "cls_match P (p, d # ds) = (if P d then [(Some d, ds)] else [])"

fun many_match :: "(char \<Rightarrow> bool) \<Rightarrow> mstate \<Rightarrow> mstate list" where
  "many_match P (p, []) = [(p, [])]"
| "many_match P (p, d # ds) = (if P d then many_match P (Some d, ds) else []) @ [(p, d # ds)]"

primrec rmatch :: "regex \<Rightarrow> mstate \<Rightarrow> mstate list" where
  "rmatch (Lit l) st = lit_match l st"
| "rmatch (Cls P) st = cls_match P st"
| "rmatch WordB st = (if is_word_opt (fst st) \<noteq> is_word_opt (next_char (snd st)) then [st] else [])"
| "rmatch (Seq a b) st = concat (map (rmatch b) (rmatch a st))"
| "rmatch (Opt a) st = rmatch a st @ [st]"
| "rmatch (Many P) st = many_match P st"

text \<open>
  A pattern with one capture group is given as the part before the group, the group and
  the part after it; \<open>group_match\<close> lists the text captured by the group for every way
  the whole pattern matches at the current position, in backtracking order.
\<close>

definition group_match :: "regex \<Rightarrow> regex \<Rightarrow> regex \<Rightarrow> mstate \<Rightarrow> string list" where
  "group_match pre grp post st =
     concat (map (\<lambda>s1. concat (map (\<lambda>s2. map (\<lambda>_. take (length (snd s1) - length (snd s2)) (snd s1))
                                              (rmatch post s2))
                                   (rmatch grp s1)))
                 (rmatch pre st))"

text \<open>\<^verbatim>\<open>re.search\<close>: the leftmost position at which the pattern matches.\<close>

fun search_from :: "regex \<Rightarrow> char option \<Rightarrow> string \<Rightarrow> bool" where
  "search_from r p [] = (rmatch r (p, []) \<noteq> [])"
| "search_from r p (c # cs) = (rmatch r (p, c # cs) \<noteq> [] \<or> search_from r (Some c) cs)"

definition re_search :: "regex \<Rightarrow> string \<Rightarrow> bool" where
  "re_search r text = search_from r None text"

fun search_group_from :: "regex \<Rightarrow> regex \<Rightarrow> regex \<Rightarrow> char option \<Rightarrow> string \<Rightarrow> string option" where
  "search_group_from pre grp post p [] =
     (case group_match pre grp post (p, []) of g # _ \<Rightarrow> Some g | [] \<Rightarrow> None)"
| "search_group_from pre grp post p (c # cs) =
     (case group_match pre grp post (p, c # cs) of g # _ \<Rightarrow> Some g
      | [] \<Rightarrow> search_group_from pre grp post (Some c) cs)"

definition re_search_group :: "regex \<Rightarrow> regex \<Rightarrow> regex \<Rightarrow> string \<Rightarrow> string option" where
  "re_search_group pre grp post text = search_group_from pre grp post None text"

text \<open>Notation for the patterns: a sequence of parts, \<^verbatim>\<open>\s+\<close>, \<^verbatim>\<open>\s*\<close>, \<^verbatim>\<open>\d+\<close>.\<close>

definition seqs :: "regex list \<Rightarrow> regex" where
  "seqs rs = foldr Seq rs (Lit [])"

definition plus :: "(char \<Rightarrow> bool) \<Rightarrow> regex" where
  "plus P = Seq (Cls P) (Many P)"

definition sp1 :: regex where
  "sp1 = plus is_space"

definition sp0 :: regex where
  "sp0 = Many is_space"

definition chr :: "char \<Rightarrow> regex" where
  "chr c = Lit [c]"

section \<open>Intent agent\<close>

datatype QueryIntent = LOOKUP | SEARCH | STATS | ANALYSIS | COMPARISON | RECOMMENDATION

definition is_dash_or_space :: "char \<Rightarrow> bool" where
  "is_dash_or_space c = (c = CHR ''-'' \<or> is_space c)"

text \<open>The record-ID pattern \<^verbatim>\<open>crid[-\s]?\d+\<close>, with and without the leading \<^verbatim>\<open>\b\<close>.\<close>

definition CRID_STRICT :: regex where
  "CRID_STRICT = seqs [Lit ''crid'', Opt (Cls is_dash_or_space), plus is_digit]"

definition CRID_PATTERN :: regex where
  "CRID_PATTERN = Seq WordB CRID_STRICT"

definition LOOKUP_PATTERNS :: "regex list" where
  "LOOKUP_PATTERNS =
     [CRID_PATTERN,
      seqs [WordB, Lit ''customer'', sp1, Lit ''id''],
      seqs [WordB, Lit ''look'', sp0, Lit ''up'', WordB],
      seqs [WordB, Lit ''find'', sp1, Lit ''customer'', WordB],
      seqs [WordB, Lit ''get'', sp1, Lit ''customer'', WordB],
      seqs [WordB, Lit ''show'', sp1, Lit ''me'', sp1, Lit ''customer'', WordB],
      seqs [WordB, Lit ''pull'', sp1, Lit ''up'', WordB],
      seqs [WordB, Lit ''customer'', sp1, Lit ''record'', WordB],
      seqs [WordB, Lit ''customer'', sp1, Lit ''details'', WordB]]"

definition STATS_PATTERNS :: "regex list" where
  "STATS_PATTERNS =
     [seqs [WordB, Lit ''how'', sp1, Lit ''many'', WordB],
      seqs [WordB, Lit ''count'', WordB],
      seqs [WordB, Lit ''statistic'', Opt (chr CHR ''s''), WordB],
      seqs [WordB, Lit ''total'', Opt (chr CHR ''s''), WordB],
      seqs [WordB, Lit ''per'', sp1, Lit ''state'', WordB],
      seqs [WordB, Lit ''by'', sp1, Lit ''state'', WordB],
      seqs [WordB, Lit ''breakdown'', WordB],
      seqs [WordB, Lit ''number'', Opt (chr CHR ''s''), WordB],
      seqs [WordB, Lit ''summary'', WordB],
      seqs [WordB, Lit ''aggregate'', WordB]]"

definition SEARCH_PATTERNS :: "regex list" where
  "SEARCH_PATTERNS =
     [seqs [WordB, Lit ''search'', WordB],
      seqs [WordB, Lit ''find'', WordB],
      seqs [WordB, Lit ''show'', WordB],
      seqs [WordB, Lit ''list'', WordB],
      seqs [WordB, Lit ''give'', sp1, Lit ''me'', WordB],
      seqs [WordB, Lit ''customer'', Opt (chr CHR ''s''), sp1, Lit ''in'', WordB],
      seqs [WordB, Lit ''people'', sp1, Lit ''in'', WordB],
      seqs [WordB, Lit ''who'', sp1, Lit ''live'', Opt (chr CHR ''s''), WordB],
      seqs [WordB, Lit ''resident'', Opt (chr CHR ''s''), WordB],
      seqs [WordB, Lit ''living'', sp1, Lit ''in'', WordB],
      seqs [WordB, Lit ''from'', WordB],
      seqs [WordB, Lit ''moved'', WordB],
      seqs [WordB, Lit ''mover'', Opt (chr CHR ''s''), WordB],
      seqs [WordB, Lit ''relocated'', WordB],
      seqs [WordB, Lit ''high'', sp1, Lit ''mover'', Opt (chr CHR ''s''), WordB],
      seqs [WordB, Lit ''frequent'', WordB]]"

definition ANALYSIS_PATTERNS :: "regex list" where
  "ANALYSIS_PATTERNS =
     [seqs [WordB, Lit ''trend'', WordB],
      seqs [WordB, Lit ''pattern'', WordB],
      seqs [WordB, Lit ''analyze'', WordB],
      seqs [WordB, Lit ''analysis'', WordB],
      seqs [WordB, Lit ''insight'', WordB],
      seqs [WordB, Lit ''why'', WordB],
      seqs [WordB, Lit ''migration'', WordB],
      seqs [WordB, Lit ''movement'', WordB],
      seqs [WordB, Lit ''behavior'', WordB]]"

definition COMPARISON_PATTERNS :: "regex list" where
  "COMPARISON_PATTERNS =
     [seqs [WordB, Lit ''compare'', WordB],
      seqs [WordB, Lit ''vs'', Opt (chr CHR ''.''), WordB],
      seqs [WordB, Lit ''versus'', WordB],
      seqs [WordB, Lit ''difference'', WordB],
      seqs [WordB, Lit ''between'', WordB],
      seqs [WordB, Lit ''comparison'', WordB]]"

definition RECOMMENDATION_PATTERNS :: "regex list" where
  "RECOMMENDATION_PATTERNS =
     [seqs [WordB, Lit ''recommend'', WordB],
      seqs [WordB, Lit ''suggest'', WordB],
      seqs [WordB, Lit ''should'', WordB],
      seqs [WordB, Lit ''predict'', WordB],
      seqs [WordB, Lit ''forecast'', WordB],
      seqs [WordB, Lit ''which'', sp1, Lit ''customer'', Opt (chr CHR ''s''), WordB]]"

definition match_patterns :: "string \<Rightarrow> regex list \<Rightarrow> bool" where
  "match_patterns text patterns = list_ex (\<lambda>p. re_search p text) patterns"

text \<open>
  \<open>detect_intent\<close> returns the intent, its base confidence and the \<^verbatim>\<open>patterns_matched\<close>
  list of the signals dictionary after the one append the branch performs.
\<close>

definition detect_intent :: "string \<Rightarrow> string list \<Rightarrow> QueryIntent \<times> rat \<times> string list" where
  "detect_intent query matched =
     (if match_patterns query LOOKUP_PATTERNS then
        (if re_search CRID_STRICT query then (LOOKUP, 95 / 100, matched @ [''lookup''])
         else (LOOKUP, 8 / 10, matched @ [''lookup'']))
      else if match_patterns query STATS_PATTERNS then (STATS, 85 / 100, matched @ [''stats''])
      else if match_patterns query COMPARISON_PATTERNS then (COMPARISON, 8 / 10, matched @ [''comparison''])
      else if match_patterns query ANALYSIS_PATTERNS then (ANALYSIS, 8 / 10, matched @ [''analysis''])
      else if match_patterns query RECOMMENDATION_PATTERNS then
        (RECOMMENDATION, 75 / 100, matched @ [''recommendation''])
      else if match_patterns query SEARCH_PATTERNS then (SEARCH, 85 / 100, matched @ [''search''])
      else (SEARCH, 6 / 10, matched @ [''default_search'']))"

definition detect_secondary_intents :: "string \<Rightarrow> QueryIntent \<Rightarrow> QueryIntent list" where
  "detect_secondary_intents query primary =
     take 2 (map fst (filter (\<lambda>(intent, patterns). intent \<noteq> primary \<and> match_patterns query patterns)
        [(LOOKUP, LOOKUP_PATTERNS), (STATS, STATS_PATTERNS), (SEARCH, SEARCH_PATTERNS),
         (ANALYSIS, ANALYSIS_PATTERNS), (COMPARISON, COMPARISON_PATTERNS),
         (RECOMMENDATION, RECOMMENDATION_PATTERNS)]))"

definition intent_calculate_confidence :: "string \<Rightarrow> QueryIntent \<Rightarrow> rat \<Rightarrow> string list \<Rightarrow> rat" where
  "intent_calculate_confidence query primary_intent intent_confidence matched =
     (let c0 = intent_confidence;
          c1 = (if length matched > 1 then min (c0 + 1 / 10) 1 else c0);
          c2 = (if length (split query) < 3 then c1 * (9 / 10) else c1);
          c3 = (if length (split query) > 20 then c2 * (85 / 100) else c2)
      in round3 c3)"

record IntentResult =
  primary_intent :: QueryIntent
  secondary_intents :: "QueryIntent list"
  confidence :: rat
  raw_signals :: "string list"

text \<open>
  \<open>classify\<close> as far as the intent and its confidence go; the domains, the complexity
  tier and the suggested tools of the result are computed from the query and the primary
  intent alone and feed into neither.
\<close>

definition classify :: "string \<Rightarrow> IntentResult" where
  "classify query =
     (let q = strip (lower query);
          (primary, intent_conf, signals) = detect_intent q [];
          secondary = detect_secondary_intents q primary;
          conf = intent_calculate_confidence q primary intent_conf signals
      in \<lparr> primary_intent = primary, secondary_intents = secondary,
           confidence = conf, raw_signals = signals \<rparr>)"

section \<open>Context agent\<close>

text \<open>
  A message of the session history carries a role and a content, which is either a plain
  string or a list of blocks; only the blocks with a \<^verbatim>\<open>text\<close> key contribute text.
\<close>

datatype block = TextBlock string | NonTextBlock

datatype content = ContentStr string | ContentBlocks "block list" | ContentOther

record message =
  role :: string
  content :: content

fun join :: "string \<Rightarrow> string list \<Rightarrow> string" where
  "join sep [] = []"
| "join sep [x] = x"
| "join sep (x # y # ys) = x @ sep @ join sep (y # ys)"

fun block_texts :: "block list \<Rightarrow> string list" where
  "block_texts [] = []"
| "block_texts (TextBlock t # bs) = t # block_texts bs"
| "block_texts (NonTextBlock # bs) = block_texts bs"

definition get_message_text :: "message \<Rightarrow> string" where
  "get_message_text msg =
     (case content msg of
        ContentStr s \<Rightarrow> s
      | ContentBlocks bs \<Rightarrow> join '' '' (block_texts bs)
      | ContentOther \<Rightarrow> [])"

definition VALID_STATES :: "string list" where
  "VALID_STATES =
     [''AL'', ''AK'', ''AZ'', ''AR'', ''CA'', ''CO'', ''CT'', ''DE'', ''FL'', ''GA'',
      ''HI'', ''ID'', ''IL'', ''IN'', ''IA'', ''KS'', ''KY'', ''LA'', ''ME'', ''MD'',
      ''MA'', ''MI'', ''MN'', ''MS'', ''MO'', ''MT'', ''NE'', ''NV'', ''NH'', ''NJ'',
      ''NM'', ''NY'', ''NC'', ''ND'', ''OH'', ''OK'', ''OR'', ''PA'', ''PR'', ''RI'', ''SC'',
      ''SD'', ''TN'', ''TX'', ''UT'', ''VT'', ''VA'', ''WA'', ''WV'', ''WI'', ''WY'', ''DC'']"

text \<open>The name table is a dictionary literal; iteration follows the order of the literal.\<close>

definition STATE_NAMES :: "(string \<times> string) list" where
  "STATE_NAMES =
     [(''alabama'', ''AL''), (''alaska'', ''AK''), (''arizona'', ''AZ''), (''arkansas'', ''AR''),
      (''california'', ''CA''), (''colorado'', ''CO''), (''connecticut'', ''CT''), (''delaware'', ''DE''),
      (''florida'', ''FL''), (''georgia'', ''GA''), (''hawaii'', ''HI''), (''idaho'', ''ID''),
      (''illinois'', ''IL''), (''indiana'', ''IN''), (''iowa'', ''IA''), (''kansas'', ''KS''),
      (''kentucky'', ''KY''), (''louisiana'', ''LA''), (''maine'', ''ME''), (''maryland'', ''MD''),
      (''massachusetts'', ''MA''), (''michigan'', ''MI''), (''minnesota'', ''MN''), (''mississippi'', ''MS''),
      (''missouri'', ''MO''), (''montana'', ''MT''), (''nebraska'', ''NE''), (''nevada'', ''NV''),
      (''new hampshire'', ''NH''), (''new jersey'', ''NJ''), (''new mexico'', ''NM''), (''new york'', ''NY''),
      (''north carolina'', ''NC''), (''north dakota'', ''ND''), (''ohio'', ''OH''), (''oklahoma'', ''OK''),
      (''oregon'', ''OR''), (''pennsylvania'', ''PA''), (''puerto rico'', ''PR''), (''rhode island'', ''RI''),
      (''south carolina'', ''SC''), (''south dakota'', ''SD''), (''tennessee'', ''TN''), (''texas'', ''TX''),
      (''utah'', ''UT''), (''vermont'', ''VT''), (''virginia'', ''VA''), (''washington'', ''WA''),
      (''west virginia'', ''WV''), (''wisconsin'', ''WI''), (''wyoming'', ''WY''),
      (''district of columbia'', ''DC''), (''d.c.'', ''DC''), (''dc'', ''DC'')]"

definition FOLLOW_UP_PATTERNS :: "regex list" where
  "FOLLOW_UP_PATTERNS =
     [seqs [WordB, Lit ''those'', WordB],
      seqs [WordB, Lit ''them'', WordB],
      seqs [WordB, Lit ''they'', WordB],
      seqs [WordB, Lit ''it'', WordB],
      seqs [WordB, Lit ''the same'', WordB],
      seqs [WordB, Lit ''same'', sp1, Lit ''customer'', Opt (chr CHR ''s''), WordB],
      seqs [WordB, Lit ''more'', sp1, Lit ''about'', WordB],
      seqs [WordB, Lit ''more'', sp1, Lit ''detail'', Opt (chr CHR ''s''), WordB],
      seqs [WordB, Lit ''what'', sp1, Lit ''about'', WordB],
      seqs [WordB, Lit ''how'', sp1, Lit ''about'', WordB],
      seqs [WordB, Lit ''and'', sp1, Lit ''also'', WordB],
      seqs [WordB, Lit ''can'', sp1, Lit ''you'', sp1, Lit ''also'', WordB],
      seqs [WordB, Lit ''tell'', sp1, Lit ''me'', sp1, Lit ''more'', WordB],
      seqs [WordB, Lit ''show'', sp1, Lit ''me'', sp1, Lit ''more'', WordB]]"

record geographic =
  geo_state :: "string option"
  geo_city :: "string option"
  geo_zip_code :: "string option"

text \<open>The first name of the table, in table order, that occurs in the lower-cased text.\<close>

fun find_state_name :: "(string \<times> string) list \<Rightarrow> string \<Rightarrow> string option" where
  "find_state_name [] text_lower = None"
| "find_state_name ((name, code) # rest) text_lower =
     (if str_in name text_lower then Some code else find_state_name rest text_lower)"

text \<open>\<^verbatim>\<open>\b([A-Z]{2})\b\<close>, \<^verbatim>\<open>\b(\d{5})(?:-\d{4})?\b\<close> and the city pattern for a known state.\<close>

definition state_code_search :: "string \<Rightarrow> string option" where
  "state_code_search text = re_search_group WordB (Seq (Cls is_upper) (Cls is_upper)) WordB text"

definition zip_search :: "string \<Rightarrow> string option" where
  "zip_search text =
     re_search_group WordB
       (seqs [Cls is_digit, Cls is_digit, Cls is_digit, Cls is_digit, Cls is_digit])
       (seqs [Opt (seqs [chr CHR ''-'', Cls is_digit, Cls is_digit, Cls is_digit, Cls is_digit]), WordB])
       text"

definition city_search :: "string \<Rightarrow> string \<Rightarrow> string option" where
  "city_search st text =
     re_search_group (Lit [])
       (seqs [Cls is_upper, plus is_lower, Opt (seqs [sp1, Cls is_upper, plus is_lower])])
       (seqs [sp0, Opt (chr CHR '',''), sp0, Lit st])
       text"

text \<open>\<^verbatim>\<open>not v\<close> for an optional string: absent or empty.\<close>

definition falsy :: "string option \<Rightarrow> bool" where
  "falsy v = (v = None \<or> v = Some [])"

text \<open>The state found in one text: a valid two-letter code, else the first state name.\<close>

definition find_state :: "string \<Rightarrow> string option" where
  "find_state text =
     (case state_code_search text of
        Some g \<Rightarrow> (if g \<in> set VALID_STATES then Some g else find_state_name STATE_NAMES (lower text))
      | None \<Rightarrow> find_state_name STATE_NAMES (lower text))"

text \<open>One round of the loop over the texts of \<^verbatim>\<open>_extract_geographic\<close>.\<close>

definition geo_step :: "geographic \<Rightarrow> string \<Rightarrow> geographic" where
  "geo_step ctx text =
     (let ctx1 = (if falsy (geo_state ctx) then
                    (case find_state text of Some code \<Rightarrow> ctx\<lparr>geo_state := Some code\<rparr> | None \<Rightarrow> ctx)
                  else ctx);
          ctx2 = (if falsy (geo_zip_code ctx1) then
                    (case zip_search text of Some z \<Rightarrow> ctx1\<lparr>geo_zip_code := Some z\<rparr> | None \<Rightarrow> ctx1)
                  else ctx1);
          ctx3 = (if falsy (geo_city ctx2) \<and> \<not> falsy (geo_state ctx2) then
                    (case city_search (the (geo_state ctx2)) text of
                       Some c \<Rightarrow> ctx2\<lparr>geo_city := Some c\<rparr> | None \<Rightarrow> ctx2)
                  else ctx2)
      in ctx3)"

definition extract_geographic :: "message list \<Rightarrow> string \<Rightarrow> geographic" where
  "extract_geographic history current_query =
     foldl geo_step \<lparr> geo_state = None, geo_city = None, geo_zip_code = None \<rparr>
       (current_query # map get_message_text (rev history))"

definition detect_follow_up :: "string \<Rightarrow> message list \<Rightarrow> bool" where
  "detect_follow_up query history =
     (if history = [] then False
      else if list_ex (\<lambda>p. re_search p (lower query)) FOLLOW_UP_PATTERNS then True
      else if length (split query) \<le> 3 \<and> history \<noteq> [] then True
      else False)"

definition geo_count :: "geographic \<Rightarrow> nat" where
  "geo_count g = length (filter (\<lambda>v. \<not> falsy v) [geo_state g, geo_city g, geo_zip_code g])"

definition context_calculate_confidence :: "message list \<Rightarrow> geographic \<Rightarrow> bool \<Rightarrow> rat" where
  "context_calculate_confidence history geo is_follow_up =
     (let c0 = 1 / 2;
          c1 = (if history \<noteq> [] then c0 + (1 / 10) * of_nat (min (length history) 5) / 5 else c0);
          c2 = c1 + (1 / 10) * of_nat (geo_count geo) / 3;
          c3 = (if is_follow_up \<and> history \<noteq> [] then c2 + 2 / 10 else c2);
          c4 = (if is_follow_up \<and> history = [] then c3 - 3 / 10 else c3)
      in max 0 (min 1 (round3 c4)))"

record QueryContext =
  session_history :: "message list"
  geographic_context :: geographic
  is_follow_up :: bool
  context_confidence :: rat

text \<open>
  \<open>context_extract\<close> is \<^verbatim>\<open>ContextAgent.extract\<close>; it takes the history that \<^verbatim>\<open>_get_session_history\<close> returned (the session
  manager is a collaborator outside the agent; without a session, or on any failure of
  the store, that history is empty). The referenced entities, the inferred preferences
  and the prior results of the result record are computed from the history alone and
  enter neither the follow-up flag nor the confidence.
\<close>

definition context_extract :: "message list \<Rightarrow> string \<Rightarrow> QueryContext" where
  "context_extract history query =
     (let geo = extract_geographic history query;
          fu = detect_follow_up query history;
          conf = context_calculate_confidence history geo fu
      in \<lparr> session_history = history, geographic_context = geo,
           is_follow_up = fu, context_confidence = conf \<rparr>)"

section \<open>Customer records\<close>

text \<open>
  A customer is a dictionary loaded from the data source. The model keeps the keys the
  code reads; a key that is absent from the dictionary is \<open>None\<close>.
\<close>

record customer =
  c_crid :: "string option"
  c_name :: "string option"
  c_address :: "string option"
  c_city :: "string option"
  c_state :: "string option"
  c_customer_type :: "string option"
  c_move_count :: "int option"

text \<open>\<^verbatim>\<open>d.get(key, default)\<close>.\<close>

definition get_or :: "'a option \<Rightarrow> 'a \<Rightarrow> 'a" where
  "get_or v d = (case v of Some x \<Rightarrow> x | None \<Rightarrow> d)"

text \<open>A dictionary is true in a condition unless it is empty.\<close>

definition customer_truthy :: "customer \<Rightarrow> bool" where
  "customer_truthy c =
     (c_crid c \<noteq> None \<or> c_name c \<noteq> None \<or> c_address c \<noteq> None \<or> c_city c \<noteq> None
      \<or> c_state c \<noteq> None \<or> c_customer_type c \<noteq> None \<or> c_move_count c \<noteq> None)"

section \<open>Nova agent\<close>

record SearchResult =
  results :: "customer list"
  total_matches :: int

record NovaResponse =
  response_text :: string
  tools_used :: "string list"
  tool_results :: "string list"
  model_used :: string
  tokens_used :: int
  ai_confidence :: rat

text \<open>
  The agent state that \<open>generate\<close> reads and writes: the model identifier and the
  availability flag.
\<close>

record NovaAgent =
  agent_model :: string
  available :: bool

text \<open>
  The body of the \<^verbatim>\<open>try\<close> block of \<open>generate\<close> builds the prompt and calls the AI
  capability. Its outcome is an input of the model: it completes with a text, the tools
  used and their results, or it raises a client error (whose response may carry a
  message; otherwise the rendering of the exception is used), or it raises another
  exception.
\<close>

datatype try_outcome =
    Completed string "string list" "string list"
  | RaisedClientError "string option" string
  | RaisedException

definition fallback_line :: "customer \<Rightarrow> string" where
  "fallback_line cu =
     ''  - '' @ get_or (c_crid cu) ''N/A'' @ '': '' @ get_or (c_name cu) ''N/A'' @ '' (''
       @ get_or (c_city cu) ''N/A'' @ '', '' @ get_or (c_state cu) ''N/A'' @ '')''"

definition AI_UNAVAILABLE :: string where
  "AI_UNAVAILABLE = ''AI features are not available. Please use direct search or autocomplete endpoints.''"

definition fallback_response :: "string \<Rightarrow> SearchResult \<Rightarrow> NovaResponse" where
  "fallback_response query search_result =
     (if results search_result \<noteq> [] then
        (let total = total_matches search_result;
             lines = [''Found '' @ str_int total @ '' customer(s):'']
                     @ map fallback_line (take 5 (results search_result))
                     @ (if total > 5 then [''  ... and '' @ str_int (total - 5) @ '' more''] else [])
         in \<lparr> response_text = join [CHR 0x0A] lines, tools_used = [], tool_results = [],
              model_used = ''fallback'', tokens_used = 0, ai_confidence = 5 / 10 \<rparr>)
      else \<lparr> response_text = AI_UNAVAILABLE, tools_used = [], tool_results = [],
             model_used = ''fallback'', tokens_used = 0, ai_confidence = 1 / 10 \<rparr>)"

definition uncertain_phrases :: "string list" where
  "uncertain_phrases =
     [[CHR ''i'', CHR 0x27, CHR ''m''] @ '' not sure'',
      ''i don'' @ [CHR 0x27] @ ''t know'', ''i cannot'', ''unable to'']"

definition estimate_confidence :: "string \<Rightarrow> string list \<Rightarrow> rat" where
  "estimate_confidence response used =
     (let c0 = 7 / 10;
          c1 = (if used \<noteq> [] then c0 + 15 / 100 else c0);
          c2 = (if list_ex (\<lambda>phrase. str_in phrase (lower response)) uncertain_phrases
                then c1 - 2 / 10 else c1)
      in max (1 / 10) (min 1 (round3 c2)))"

definition access_error :: "string \<Rightarrow> bool" where
  "access_error error_msg = (str_in ''Access'' error_msg \<or> str_in ''credentials'' (lower error_msg))"

definition generate :: "NovaAgent \<Rightarrow> try_outcome \<Rightarrow> string \<Rightarrow> SearchResult \<Rightarrow> NovaResponse \<times> NovaAgent" where
  "generate agent outcome query search_result =
     (if \<not> available agent then (fallback_response query search_result, agent)
      else (case outcome of
              Completed response used tres \<Rightarrow>
                (\<lparr> response_text = response, tools_used = used, tool_results = tres,
                   model_used = agent_model agent, tokens_used = 0,
                   ai_confidence = estimate_confidence response used \<rparr>, agent)
            | RaisedClientError message rendering \<Rightarrow>
                (let error_msg = get_or message rendering;
                     agent' = (if access_error error_msg then agent\<lparr>available := False\<rparr> else agent)
                 in (fallback_response query search_result, agent'))
            | RaisedException \<Rightarrow> (fallback_response query search_result, agent)))"

text \<open>A run of calls on one agent: each call has its own outcome, query and search result.\<close>

fun generate_all :: "NovaAgent \<Rightarrow> (try_outcome \<times> string \<times> SearchResult) list \<Rightarrow> NovaResponse list \<times> NovaAgent" where
  "generate_all agent [] = ([], agent)"
| "generate_all agent ((outcome, query, sr) # calls) =
     (let (r, agent') = generate agent outcome query sr;
          (rs, agent'') = generate_all agent' calls
      in (r # rs, agent''))"

section \<open>Data source\<close>

text \<open>Dictionaries whose order of insertion matters are association lists.\<close>

fun dict_get :: "('k \<times> 'v) list \<Rightarrow> 'k \<Rightarrow> 'v option" where
  "dict_get [] k = None"
| "dict_get ((k', v) # d) k = (if k' = k then Some v else dict_get d k)"

fun dict_set :: "('k \<times> 'v) list \<Rightarrow> 'k \<Rightarrow> 'v \<Rightarrow> ('k \<times> 'v) list" where
  "dict_set [] k v = [(k, v)]"
| "dict_set ((k', v') # d) k v = (if k' = k then (k, v) # d else (k', v') # dict_set d k v)"

definition dict_keys :: "('k \<times> 'v) list \<Rightarrow> 'k list" where
  "dict_keys d = map fst d"

definition STATE_CODE_TO_NAME :: "(string \<times> string) list" where
  "STATE_CODE_TO_NAME =
     [(''AL'', ''Alabama''), (''AK'', ''Alaska''), (''AZ'', ''Arizona''), (''AR'', ''Arkansas''),
      (''CA'', ''California''), (''CO'', ''Colorado''), (''CT'', ''Connecticut''), (''DE'', ''Delaware''),
      (''FL'', ''Florida''), (''GA'', ''Georgia''), (''HI'', ''Hawaii''), (''ID'', ''Idaho''),
      (''IL'', ''Illinois''), (''IN'', ''Indiana''), (''IA'', ''Iowa''), (''KS'', ''Kansas''),
      (''KY'', ''Kentucky''), (''LA'', ''Louisiana''), (''ME'', ''Maine''), (''MD'', ''Maryland''),
      (''MA'', ''Massachusetts''), (''MI'', ''Michigan''), (''MN'', ''Minnesota''), (''MS'', ''Mississippi''),
      (''MO'', ''Missouri''), (''MT'', ''Montana''), (''NE'', ''Nebraska''), (''NV'', ''Nevada''),
      (''NH'', ''New Hampshire''), (''NJ'', ''New Jersey''), (''NM'', ''New Mexico''), (''NY'', ''New York''),
      (''NC'', ''North Carolina''), (''ND'', ''North Dakota''), (''OH'', ''Ohio''), (''OK'', ''Oklahoma''),
      (''OR'', ''Oregon''), (''PA'', ''Pennsylvania''), (''PR'', ''Puerto Rico''), (''RI'', ''Rhode Island''),
      (''SC'', ''South Carolina''), (''SD'', ''South Dakota''), (''TN'', ''Tennessee''), (''TX'', ''Texas''),
      (''UT'', ''Utah''), (''VT'', ''Vermont''), (''VA'', ''Virginia''), (''WA'', ''Washington''),
      (''WV'', ''West Virginia''), (''WI'', ''Wisconsin''), (''WY'', ''Wyoming''), (''DC'', ''Washington DC'')]"

record DataSourceMetadata =
  total_records :: nat
  available_states :: "string list"
  state_counts :: "(string \<times> nat) list"

record DataSource =
  customers :: "customer list"
  by_crid :: "(string \<times> customer) list"
  by_state :: "(string \<times> customer list) list"
  metadata :: DataSourceMetadata

definition empty_metadata :: DataSourceMetadata where
  "empty_metadata = \<lparr> total_records = 0, available_states = [], state_counts = [] \<rparr>"

text \<open>The data source as its constructor leaves it.\<close>

definition new_data_source :: DataSource where
  "new_data_source = \<lparr> customers = [], by_crid = [], by_state = [], metadata = empty_metadata \<rparr>"

text \<open>\<^verbatim>\<open>customer.get("state", "").upper()\<close>.\<close>

definition state_of :: "customer \<Rightarrow> string" where
  "state_of cu = upper (get_or (c_state cu) [])"

definition count_state :: "(string \<times> nat) list \<Rightarrow> customer \<Rightarrow> (string \<times> nat) list" where
  "count_state counts cu =
     (let st = state_of cu
      in if st \<noteq> [] then dict_set counts st (get_or (dict_get counts st) 0 + 1) else counts)"

text \<open>
  The metadata as far as the states go (the cities, customer types and date range are
  further summaries of the same records). \<^verbatim>\<open>sorted(.., reverse=True)\<close> is a stable sort on
  the descending count.
\<close>

definition build_metadata :: "customer list \<Rightarrow> DataSourceMetadata" where
  "build_metadata cs =
     (let counts = foldl count_state [] cs;
          sorted_states = sort_key (\<lambda>x. - int (snd x)) counts
      in \<lparr> total_records = length cs, available_states = map fst sorted_states,
           state_counts = counts \<rparr>)"

definition index_crid :: "(string \<times> customer) list \<Rightarrow> customer \<Rightarrow> (string \<times> customer) list" where
  "index_crid idx cu = (case c_crid cu of Some k \<Rightarrow> dict_set idx k cu | None \<Rightarrow> idx)"

definition index_state :: "(string \<times> customer list) list \<Rightarrow> customer \<Rightarrow> (string \<times> customer list) list" where
  "index_state idx cu =
     (let st = state_of cu
      in if st \<noteq> [] then dict_set idx st (get_or (dict_get idx st) [] @ [cu]) else idx)"

text \<open>The CRID and state indexes of \<^verbatim>\<open>_build_indexes\<close> (the autocomplete indexes are not read
  by \<open>lookup\<close> or \<open>search\<close>).\<close>

definition build_indexes :: "DataSource \<Rightarrow> DataSource" where
  "build_indexes ds =
     ds\<lparr> by_crid := foldl index_crid [] (customers ds),
         by_state := foldl index_state [] (customers ds) \<rparr>"

text \<open>
  A successful \<^verbatim>\<open>load\<close> of the records \<open>cs\<close>: the records are stored, the indexes and then
  the metadata are rebuilt.
\<close>

definition load :: "customer list \<Rightarrow> DataSource \<Rightarrow> DataSource" where
  "load cs ds =
     (let ds1 = ds\<lparr>customers := cs\<rparr>;
          ds2 = build_indexes ds1
      in ds2\<lparr>metadata := build_metadata (customers ds2)\<rparr>)"

text \<open>\<^verbatim>\<open>str.zfill\<close>: zeros are inserted after a leading sign.\<close>

definition zfill :: "string \<Rightarrow> nat \<Rightarrow> string" where
  "zfill s w =
     (if w \<le> length s then s
      else (case s of
              c # rest \<Rightarrow>
                (if c = CHR ''+'' \<or> c = CHR ''-'' then c # replicate (w - length s) CHR ''0'' @ rest
                 else replicate (w - length s) CHR ''0'' @ s)
            | [] \<Rightarrow> replicate w CHR ''0''))"

datatype lookup_result = LookupFound customer | LookupNotFound string

text \<open>The first of the formats whose entry in the index is a true value.\<close>

fun first_hit :: "(string \<times> customer) list \<Rightarrow> string list \<Rightarrow> customer option" where
  "first_hit idx [] = None"
| "first_hit idx (fmt # fmts) =
     (case dict_get idx fmt of
        Some data \<Rightarrow> (if customer_truthy data then Some data else first_hit idx fmts)
      | None \<Rightarrow> first_hit idx fmts)"

definition crid_formats :: "string \<Rightarrow> string list" where
  "crid_formats crid_upper =
     (let num = drop 5 crid_upper
      in [''CRID-'' @ zfill num 6, ''CRID-'' @ zfill num 5, ''CRID-'' @ zfill num 3, crid_upper])"

definition lookup :: "DataSource \<Rightarrow> string \<Rightarrow> lookup_result" where
  "lookup ds crid =
     (let crid' = upper crid
      in if prefix ''CRID-'' crid' then
           (case first_hit (by_crid ds) (crid_formats crid') of
              Some data \<Rightarrow> LookupFound data
            | None \<Rightarrow> LookupNotFound (''CRID '' @ crid' @ '' not found''))
         else LookupNotFound (''CRID '' @ crid' @ '' not found''))"

record state_error =
  error :: string
  requested_state :: string
  requested_state_name :: string
  err_available_states :: "string list"
  available_states_with_counts :: "(string \<times> nat) list"
  suggestion :: string

datatype search_result = SearchSuccess nat "customer list" | SearchFailure state_error

definition success :: "search_result \<Rightarrow> bool" where
  "success r = (case r of SearchSuccess _ _ \<Rightarrow> True | SearchFailure _ \<Rightarrow> False)"

text \<open>\<^verbatim>\<open>xs[:n]\<close>: a negative bound counts from the end.\<close>

definition slice_to :: "'a list \<Rightarrow> int \<Rightarrow> 'a list" where
  "slice_to xs n = (if 0 \<le> n then take (nat n) xs else take (length xs - nat (- n)) xs)"

text \<open>The four filters of \<open>search\<close>, applied in the order of the code.\<close>

definition apply_filters ::
  "customer list \<Rightarrow> string option \<Rightarrow> int option \<Rightarrow> string option \<Rightarrow> bool option \<Rightarrow> customer list" where
  "apply_filters rs0 city min_moves ctype has_apartment =
     (let rs1 = (case min_moves of
                   Some m \<Rightarrow> (if m \<noteq> 0 then filter (\<lambda>cu. m \<le> get_or (c_move_count cu) 0) rs0 else rs0)
                 | None \<Rightarrow> rs0);
          rs2 = (case city of
                   Some ci \<Rightarrow> (if ci \<noteq> [] then
                                 filter (\<lambda>cu. str_in (lower ci) (lower (get_or (c_city cu) []))) rs1
                               else rs1)
                 | None \<Rightarrow> rs1);
          rs3 = (case ctype of
                   Some ct \<Rightarrow> (if ct \<noteq> [] then
                                 filter (\<lambda>cu. upper (get_or (c_customer_type cu) []) = upper ct) rs2
                               else rs2)
                 | None \<Rightarrow> rs2);
          rs4 = (if has_apartment = Some True then
                   filter (\<lambda>cu. str_in ''apt'' (lower (get_or (c_address cu) []))
                                \<or> str_in ''unit'' (lower (get_or (c_address cu) []))) rs3
                 else rs3)
      in rs4)"

definition state_not_available :: "DataSource \<Rightarrow> string \<Rightarrow> string \<Rightarrow> state_error" where
  "state_not_available ds st state_upper =
     \<lparr> error = ''state_not_available'',
       requested_state = state_upper,
       requested_state_name = get_or (dict_get STATE_CODE_TO_NAME state_upper) st,
       err_available_states = available_states (metadata ds),
       available_states_with_counts = state_counts (metadata ds),
       suggestion = get_or (dict_get STATE_CODE_TO_NAME state_upper) st
         @ '' is not in our database. We have data for ''
         @ str_nat (length (available_states (metadata ds))) @ '' states.'' \<rparr>"

definition finish_search :: "customer list \<Rightarrow> int option \<Rightarrow> search_result" where
  "finish_search rs limit =
     SearchSuccess (length rs)
       (case limit of Some n \<Rightarrow> (if n \<noteq> 0 then slice_to rs n else rs) | None \<Rightarrow> rs)"

definition search ::
  "DataSource \<Rightarrow> string option \<Rightarrow> string option \<Rightarrow> int option \<Rightarrow> string option \<Rightarrow> bool option
     \<Rightarrow> int option \<Rightarrow> search_result" where
  "search ds st city min_moves ctype has_apartment limit =
     (case st of
        Some s \<Rightarrow>
          (if s \<noteq> [] then
             (let state_upper = upper s
              in if state_upper \<notin> set (dict_keys (by_state ds)) then
                   SearchFailure (state_not_available ds s state_upper)
                 else finish_search
                        (apply_filters (get_or (dict_get (by_state ds) state_upper) [])
                           city min_moves ctype has_apartment) limit)
           else finish_search (apply_filters (customers ds) city min_moves ctype has_apartment) limit)
      | None \<Rightarrow> finish_search (apply_filters (customers ds) city min_moves ctype has_apartment) limit)"

section \<open>Router\<close>

datatype RouteType = CACHE_HIT | DATABASE | NOVA

text \<open>
  Modelled from the spec: the Session of the session store, whose class is not part of
  the sources at hand. A session is a record of a conversation's prior turns, keyed by an
  opaque identifier; \<^verbatim>\<open>add_message(role, text)\<close> appends a turn and
  \<^verbatim>\<open>get_history(max_messages)\<close> returns the last turns in order.
\<close>

record session =
  session_id :: string
  messages :: "(string \<times> string) list"

definition add_message :: "string \<Rightarrow> string \<Rightarrow> session \<Rightarrow> session" where
  "add_message r text s = s\<lparr>messages := messages s @ [(r, text)]\<rparr>"

definition get_history :: "nat \<Rightarrow> session \<Rightarrow> (string \<times> string) list" where
  "get_history max_messages s = drop (length (messages s) - max_messages) (messages s)"

text \<open>
  What the router does to its stores is recorded as a list of events beside the stores
  themselves. Modelled from the spec: the cache is a store of values by key
  (\<^verbatim>\<open>get(key) -> value?\<close>, \<^verbatim>\<open>set(key, value, ttl)\<close>; expiry is not modelled) and the session
  store keeps sessions by identifier (\<^verbatim>\<open>save(session)\<close>).
\<close>

datatype event = CacheGet string | CacheSet string string | SessionSave session

record router_state =
  cache :: "(string \<times> string) list"
  sessions :: "(string \<times> session) list"
  events :: "event list"

definition cache_get :: "router_state \<Rightarrow> string \<Rightarrow> string option \<times> router_state" where
  "cache_get st key = (dict_get (cache st) key, st\<lparr>events := events st @ [CacheGet key]\<rparr>)"

definition cache_set :: "router_state \<Rightarrow> string \<Rightarrow> string \<Rightarrow> router_state" where
  "cache_set st key v =
     st\<lparr>cache := dict_set (cache st) key v, events := events st @ [CacheSet key v]\<rparr>"

definition sessions_save :: "router_state \<Rightarrow> session \<Rightarrow> router_state" where
  "sessions_save st s =
     st\<lparr>sessions := dict_set (sessions st) (session_id s) s, events := events st @ [SessionSave s]\<rparr>"

record nova_result =
  n_success :: bool
  n_response :: string
  n_error :: "string option"
  n_tool :: "string option"
  n_quality_score :: "rat option"
  n_route :: "string option"

record rag_row =
  r_name :: string
  r_crid :: string
  r_city :: string
  r_state :: string
  r_move_count :: int
  r_status :: string

record rag_result =
  rag_success :: bool
  rag_count :: int
  rag_data :: "rag_row list"

text \<open>
  The collaborators of the router, whose modules are not part of the sources at hand,
  are parameters: the guardrail check, the cache key, the semantic router, the
  deterministic tool call with its success flag, the AI client, the session lookup and
  the JSON coding of a cached response. \<open>format_db_result\<close> stands for
  \<^verbatim>\<open>Router._format_db_result\<close>, which renders a tool result whose shape is given by the
  database module. \<open>'f\<close> is the type of guardrail flags and \<open>'r\<close> that of tool results.
\<close>

record ('f, 'r) collaborators =
  guard_check :: "string \<Rightarrow> 'f option \<Rightarrow> string option"
  make_key :: "string \<Rightarrow> string"
  sessions_get :: "(string \<times> session) list \<Rightarrow> string option \<Rightarrow> session"
  find_route :: "string \<Rightarrow> RouteType \<times> string option"
  db_execute :: "string \<Rightarrow> string \<Rightarrow> 'r"
  db_success :: "'r \<Rightarrow> bool"
  format_db_result :: "'r \<Rightarrow> string \<Rightarrow> string"
  nova_orchestrator :: bool
  search_customers_semantic :: "string \<Rightarrow> nat \<Rightarrow> rag_result"
  nova_query :: "string \<Rightarrow> (string \<times> string) list option \<Rightarrow> string option \<Rightarrow> string \<Rightarrow> nova_result"
  json_dumps_response :: "string \<Rightarrow> string"
  json_loads_response :: "string \<Rightarrow> string"

text \<open>The response dictionary; the latency field reads the wall clock and is left out.\<close>

record response =
  resp_success :: bool
  resp_query :: string
  resp_response :: string
  resp_route :: RouteType
  resp_cached :: bool
  resp_blocked :: bool
  resp_tool :: "string option"
  resp_session_id :: string
  resp_quality_score :: "rat option"
  resp_nova_route :: "string option"

text \<open>A string bound by \<^verbatim>\<open>if x := ..\<close> passes the test unless it is absent or empty.\<close>

definition truthy :: "string option \<Rightarrow> string option" where
  "truthy v = (case v of Some s \<Rightarrow> (if s = [] then None else Some s) | None \<Rightarrow> None)"

definition make_response :: "string \<Rightarrow> string \<Rightarrow> RouteType \<Rightarrow> string \<Rightarrow> response" where
  "make_response query text route_type sid =
     \<lparr> resp_success = True, resp_query = query, resp_response = text, resp_route = route_type,
       resp_cached = False, resp_blocked = False, resp_tool = None, resp_session_id = sid,
       resp_quality_score = None, resp_nova_route = None \<rparr>"

definition rag_line :: "rag_row \<Rightarrow> string" where
  "rag_line c =
     ''- '' @ r_name c @ '' (CRID: '' @ r_crid c @ ''): '' @ r_city c @ '', '' @ r_state c @ '', ''
       @ str_int (r_move_count c) @ '' moves. Status: '' @ r_status c"

definition rag_context :: "rag_result \<Rightarrow> string option" where
  "rag_context rr =
     (if rag_success rr \<and> rag_count rr > 0 then
        Some (join [CHR 0x0A] (''Found relevant customer records:'' # map rag_line (rag_data rr)))
      else None)"

text \<open>Step 5 of \<open>route\<close>: the AI pipeline.\<close>

definition route_nova ::
  "('f, 'r) collaborators \<Rightarrow> router_state \<Rightarrow> string \<Rightarrow> string \<Rightarrow> session \<Rightarrow> response \<times> router_state" where
  "route_nova env st q key sess =
     (let history = (if messages sess \<noteq> [] then Some (get_history 20 sess) else None);
          context = (if \<not> nova_orchestrator env then rag_context (search_customers_semantic env q 5)
                     else None);
          result = nova_query env q history context (session_id sess)
      in if n_success result then
           (let text = n_response result;
                sess1 = add_message ''user'' q sess;
                sess2 = add_message ''assistant'' text sess1;
                st1 = sessions_save st sess2;
                st2 = (if length (messages sess2) \<le> 2
                       then cache_set st1 key (json_dumps_response env text) else st1)
            in ((make_response q text NOVA (session_id sess2))
                  \<lparr> resp_tool := n_tool result, resp_quality_score := n_quality_score result,
                    resp_nova_route := truthy (n_route result) \<rparr>, st2))
         else ((make_response q (get_or (n_error result) ''Unknown error'') NOVA (session_id sess))
                 \<lparr> resp_success := False \<rparr>, st))"

text \<open>Steps 3 and 4: the semantic router and the deterministic tool.\<close>

definition route_execute ::
  "('f, 'r) collaborators \<Rightarrow> router_state \<Rightarrow> string \<Rightarrow> string \<Rightarrow> session \<Rightarrow> response \<times> router_state" where
  "route_execute env st q key sess =
     (let (route_type, tool_meta) = find_route env q
      in if route_type = DATABASE then
           (let tool = get_or tool_meta ''search_customers'';
                result = db_execute env tool q
            in if db_success env result then
                 (let text = format_db_result env result tool;
                      sess1 = add_message ''user'' q sess;
                      sess2 = add_message ''assistant'' text sess1;
                      st1 = sessions_save st sess2;
                      st2 = (if length (messages sess2) \<le> 2
                             then cache_set st1 key (json_dumps_response env text) else st1)
                  in ((make_response q text DATABASE (session_id sess2)) \<lparr> resp_tool := Some tool \<rparr>, st2))
               else route_nova env st q key sess)
         else route_nova env st q key sess)"

text \<open>Step 2: the cache check.\<close>

definition route_cache ::
  "('f, 'r) collaborators \<Rightarrow> router_state \<Rightarrow> string \<Rightarrow> bool \<Rightarrow> session \<Rightarrow> response \<times> router_state" where
  "route_cache env st q bypass_cache sess =
     (let key = make_key env q
      in if \<not> bypass_cache \<and> messages sess = [] then
           (let (got, st1) = cache_get st key
            in case truthy got of
                 Some hit \<Rightarrow>
                   ((make_response q (json_loads_response env hit) CACHE_HIT (session_id sess))
                      \<lparr> resp_cached := True \<rparr>, st1)
               | None \<Rightarrow> route_execute env st1 q key sess)
         else route_execute env st q key sess)"

text \<open>
  \<open>route\<close>; \<open>flags\<close> is the \<^verbatim>\<open>GuardrailFlags\<close> object built from the \<^verbatim>\<open>guardrails\<close>
  argument, \<open>None\<close> when that argument is absent or empty.
\<close>

definition route ::
  "('f, 'r) collaborators \<Rightarrow> router_state \<Rightarrow> string \<Rightarrow> bool \<Rightarrow> 'f option \<Rightarrow> string option
     \<Rightarrow> response \<times> router_state" where
  "route env st query bypass_cache flags sid =
     (let q = strip query;
          sess = sessions_get env (sessions st) sid
      in case truthy (guard_check env q flags) of
           Some blocked \<Rightarrow>
             ((make_response q blocked CACHE_HIT (session_id sess)) \<lparr> resp_blocked := True \<rparr>, st)
         | None \<Rightarrow> route_cache env st q bypass_cache sess)"

text \<open>The session after the user turn and the assistant turn of an exchange are appended.\<close>

definition turns_after :: "string \<Rightarrow> string \<Rightarrow> session \<Rightarrow> session" where
  "turns_after q text sess = add_message ''assistant'' text (add_message ''user'' q sess)"

section \<open>Example data\<close>

text \<open>Concrete records, an agent and a set of collaborators on which the theorems are instantiated.\<close>

definition example_customer :: "string \<Rightarrow> string \<Rightarrow> string \<Rightarrow> string \<Rightarrow> customer" where
  "example_customer cr nm ci st =
     \<lparr> c_crid = Some cr, c_name = Some nm, c_address = None, c_city = Some ci, c_state = Some st,
       c_customer_type = None, c_move_count = Some 2 \<rparr>"

definition example_customers :: "customer list" where
  "example_customers =
     [example_customer ''CRID-000042'' ''Ann Lee'' ''Reno'' ''NV'',
      example_customer ''CRID-000043'' ''Bob Ray'' ''Fresno'' ''ca'',
      example_customer ''CRID-000044'' ''Cy Dunn'' ''Las Vegas'' ''nv'']"

definition example_agent :: NovaAgent where
  "example_agent = \<lparr> agent_model = ''nova-lite'', available = True \<rparr>"

definition example_state :: router_state where
  "example_state = \<lparr> cache = [], sessions = [], events = [] \<rparr>"

definition example_collaborators :: "(unit, bool \<times> string) collaborators" where
  "example_collaborators =
     \<lparr> guard_check = (\<lambda>q f. if str_in ''ssn'' (lower q) then Some ''SSN not accessible'' else None),
       make_key = lower,
       sessions_get = (\<lambda>store sid.
          case sid of
            Some i \<Rightarrow> (case dict_get store i of
                         Some s \<Rightarrow> s | None \<Rightarrow> \<lparr> session_id = i, messages = [] \<rparr>)
          | None \<Rightarrow> \<lparr> session_id = ''s1'', messages = [] \<rparr>),
       find_route = (\<lambda>q. if str_in ''crid'' (lower q) then (DATABASE, Some ''lookup_crid'')
                          else (NOVA, None)),
       db_execute = (\<lambda>tool q. (True, ''Customer Ann Lee (CRID-000042): Reno, NV. Moved 2 times.'')),
       db_success = fst,
       format_db_result = (\<lambda>r tool. snd r),
       nova_orchestrator = True,
       search_customers_semantic = (\<lambda>q n. \<lparr> rag_success = False, rag_count = 0, rag_data = [] \<rparr>),
       nova_query = (\<lambda>q h c sid.
          \<lparr> n_success = True, n_response = ''There are 2 customers in NV.'', n_error = None,
            n_tool = None, n_quality_score = None, n_route = None \<rparr>),
       json_dumps_response = (\<lambda>text. text),
       json_loads_response = (\<lambda>hit. hit) \<rparr>"

section \<open>Properties\<close>

subsection \<open>Rounding\<close>

lemma round3_nonneg: "0 \<le> x \<Longrightarrow> 0 \<le> round3 x"
  unfolding round3_def Let_def by (auto intro!: divide_nonneg_nonneg)

lemma round3_le_one: assumes "x \<le> 1" shows "round3 x \<le> 1"
proof -
  let ?y = "x * 1000"
  have y: "?y \<le> 1000" using assms by simp
  have f: "\<lfloor>?y\<rfloor> \<le> 1000" using y by (simp add: floor_le_iff)
  show ?thesis
  proof (cases "\<lfloor>?y\<rfloor> = 1000")
    case True
    then have "of_int \<lfloor>?y\<rfloor> = (1000::rat)" by simp
    moreover have "of_int \<lfloor>?y\<rfloor> \<le> ?y" by (rule of_int_floor_le)
    ultimately have "?y - of_int \<lfloor>?y\<rfloor> = 0" using y by linarith
    then show ?thesis unfolding round3_def Let_def using True by simp
  next
    case False
    then have "\<lfloor>?y\<rfloor> + 1 \<le> 1000" using f by linarith
    then have a: "(of_int (\<lfloor>?y\<rfloor> + 1) :: rat) \<le> 1000" by (metis of_int_le_iff of_int_numeral)
    have b: "(of_int \<lfloor>?y\<rfloor> :: rat) \<le> 1000" using f by (metis of_int_le_iff of_int_numeral)
    show ?thesis unfolding round3_def Let_def using a b by (auto simp: divide_le_eq)
  qed
qed

lemma round3_095: "round3 (95 / 100) = 95 / 100"
  by code_simp
lemma round3_0855: "round3 (95 / 100 * (9 / 10)) = 855 / 1000"
  by code_simp
lemma round3_08075: "round3 (95 / 100 * (85 / 100)) = 808 / 1000"
  by code_simp

lemma round3_near: "\<bar>round3 x - x\<bar> \<le> 1 / 2000"
proof -
  define y where "y = x * 1000"
  define f where "f = \<lfloor>y\<rfloor>"
  define d where "d = y - of_int f"
  define r where "r = (if d < 1 / 2 then f else if 1 / 2 < d then f + 1 else if even f then f else f + 1)"
  have d0: "0 \<le> d" "d < 1" unfolding d_def f_def by linarith+
  have yd: "y = of_int f + d" unfolding d_def by simp
  have b: "\<bar>of_int r - y\<bar> \<le> 1 / 2" unfolding r_def yd using d0 by auto
  have e1: "round3 x = of_int r / 1000"
    unfolding round3_def Let_def r_def d_def f_def y_def by simp
  have m: "(round3 x - x) * 1000 = of_int r - y" unfolding e1 y_def by (simp add: algebra_simps)
  have "\<bar>round3 x - x\<bar> * 1000 = \<bar>(round3 x - x) * 1000\<bar>"
    by (simp only: abs_mult abs_numeral)
  also have "\<dots> = \<bar>of_int r - y\<bar>" by (simp only: m)
  finally have "\<bar>round3 x - x\<bar> * 1000 \<le> 1 / 2" using b by (simp only:)
  then show ?thesis by (simp add: field_simps)
qed

subsection \<open>Intent agent\<close>

lemma search_from_drop_wordb: "search_from (Seq WordB r) p s \<Longrightarrow> search_from r p s"
  by (induction s arbitrary: p) (auto split: if_splits)

lemma crid_pattern_strict: "re_search CRID_PATTERN q \<Longrightarrow> re_search CRID_STRICT q"
  unfolding re_search_def CRID_PATTERN_def by (rule search_from_drop_wordb)

lemma crid_pattern_lookup: "re_search CRID_PATTERN q \<Longrightarrow> match_patterns q LOOKUP_PATTERNS"
  unfolding match_patterns_def LOOKUP_PATTERNS_def by simp

lemma detect_intent_crid:
  "re_search CRID_PATTERN q \<Longrightarrow> detect_intent q [] = (LOOKUP, 95 / 100, [''lookup''])"
  unfolding detect_intent_def by (simp add: crid_pattern_strict crid_pattern_lookup)

lemma detect_intent_shape:
  "0 \<le> fst (snd (detect_intent q [])) \<and> fst (snd (detect_intent q [])) \<le> 1
   \<and> length (snd (snd (detect_intent q []))) = 1"
  unfolding detect_intent_def by simp

lemma detect_intent_cases:
  "\<exists>i c tag. detect_intent q [] = (i, c, [tag]) \<and> 0 \<le> c \<and> c \<le> 1"
proof -
  obtain i c m where d: "detect_intent q [] = (i, c, m)" by (cases "detect_intent q []") auto
  have "length m = 1" "0 \<le> c" "c \<le> 1" using detect_intent_shape[of q] d by auto
  moreover then obtain tag where "m = [tag]" by (cases m) auto
  ultimately show ?thesis using d by blast
qed

lemma intent_confidence_bounds:
  assumes "0 \<le> c" "c \<le> 1"
  shows "0 \<le> intent_calculate_confidence q i c [tag] \<and> intent_calculate_confidence q i c [tag] \<le> 1"
proof -
  let ?m1 = "if length (split q) < 3 then c * (9 / 10) else c"
  let ?m2 = "if length (split q) > 20 then ?m1 * (85 / 100) else ?m1"
  have a: "0 \<le> ?m1 \<and> ?m1 \<le> 1" using assms by auto
  have "0 \<le> ?m1 * (85 / 100) \<and> ?m1 * (85 / 100) \<le> 1"
  proof
    show "0 \<le> ?m1 * (85 / 100)" using a by simp
    have "?m1 * (85 / 100) \<le> 1 * (85 / 100)" using a by (intro mult_right_mono) auto
    then show "?m1 * (85 / 100) \<le> 1" by simp
  qed
  then have b: "0 \<le> ?m2 \<and> ?m2 \<le> 1" using a by presburger
  have "intent_calculate_confidence q i c [tag] = round3 ?m2"
    unfolding intent_calculate_confidence_def by (simp add: Let_def)
  then show ?thesis using b round3_nonneg round3_le_one by metis
qed

lemma classify_confidence_bounds: "0 \<le> confidence (classify q) \<and> confidence (classify q) \<le> 1"
proof -
  obtain i c tag where d: "detect_intent (strip (lower q)) [] = (i, c, [tag])" and c: "0 \<le> c" "c \<le> 1"
    using detect_intent_cases by blast
  have "confidence (classify q) = intent_calculate_confidence (strip (lower q)) i c [tag]"
    unfolding classify_def by (simp add: d Let_def)
  then show ?thesis using intent_confidence_bounds[OF c] by simp
qed

text \<open>
  Claim C2, as amended. For every query whose lower-cased, stripped text contains a match
  of the record-ID pattern, \<open>classify\<close> returns the primary intent LOOKUP with a final
  confidence of at least 0.8. The confidence is 0.95 exactly when the query has between
  3 and 20 words, and 0.855 when it has fewer than 3 words: the record-ID branch records
  one pattern category, so the +0.1 step never applies, and the word-count factors apply
  to the record-ID confidence as to any other.
\<close>

theorem classify_record_id:
  assumes "re_search CRID_PATTERN (strip (lower query))"
  shows "primary_intent (classify query) = LOOKUP
       \<and> 8 / 10 \<le> confidence (classify query)
       \<and> (confidence (classify query) = 95 / 100
            \<longleftrightarrow> 3 \<le> length (split (strip (lower query))) \<and> length (split (strip (lower query))) \<le> 20)
       \<and> (length (split (strip (lower query))) < 3 \<longrightarrow> confidence (classify query) = 855 / 1000)"
proof -
  let ?q = "strip (lower query)"
  let ?n = "length (split ?q)"
  have d: "detect_intent ?q [] = (LOOKUP, 95 / 100, [''lookup''])"
    using assms by (rule detect_intent_crid)
  have p: "primary_intent (classify query) = LOOKUP"
    unfolding classify_def by (simp add: d Let_def)
  have c: "confidence (classify query) =
             (if ?n < 3 then 855 / 1000 else if ?n > 20 then 808 / 1000 else 95 / 100)"
    unfolding classify_def intent_calculate_confidence_def
    using round3_095 round3_0855 round3_08075 by (simp add: d Let_def)
  show ?thesis using p c by auto
qed


theorem classify_record_id_witness:
  "re_search CRID_PATTERN (strip (lower ''Show me customer CRID-000042''))
   \<and> primary_intent (classify ''Show me customer CRID-000042'') = LOOKUP
   \<and> confidence (classify ''Show me customer CRID-000042'') = 95 / 100
   \<and> re_search CRID_PATTERN (strip (lower ''crid 7''))
   \<and> length (split (strip (lower ''crid 7''))) < 3
   \<and> confidence (classify ''crid 7'') = 855 / 1000"
proof -
  have h1: "re_search CRID_PATTERN (strip (lower ''Show me customer CRID-000042''))"
    by code_simp
  have n1: "length (split (strip (lower ''Show me customer CRID-000042''))) = 4"
    by code_simp
  have h2: "re_search CRID_PATTERN (strip (lower ''crid 7''))"
    by code_simp
  have n2: "length (split (strip (lower ''crid 7''))) = 2"
    by code_simp
  show ?thesis
    using classify_record_id[OF h1] classify_record_id[OF h2] h1 h2 n1 n2 by simp
qed

text \<open>
  The claim as stated fails for the one-word query \<open>CRID-1\<close>: the strict record-ID
  pattern matches, and the final confidence is 0.855, not 0.95.
\<close>

theorem classify_record_id_short_query:
  "re_search CRID_PATTERN (strip (lower ''CRID-1''))
   \<and> re_search CRID_STRICT (strip (lower ''CRID-1''))
   \<and> primary_intent (classify ''CRID-1'') = LOOKUP
   \<and> confidence (classify ''CRID-1'') = 855 / 1000
   \<and> confidence (classify ''CRID-1'') \<noteq> 95 / 100"
  by code_simp

subsection \<open>Context agent\<close>

lemma falsy_geo_step_state: "\<not> falsy (geo_state ctx) \<Longrightarrow> \<not> falsy (geo_state (geo_step ctx t))"
  unfolding geo_step_def Let_def by (auto split: option.splits)
lemma falsy_geo_step_zip: "\<not> falsy (geo_zip_code ctx) \<Longrightarrow> \<not> falsy (geo_zip_code (geo_step ctx t))"
  unfolding geo_step_def Let_def by (auto split: option.splits)
lemma falsy_geo_step_city: "\<not> falsy (geo_city ctx) \<Longrightarrow> \<not> falsy (geo_city (geo_step ctx t))"
  unfolding geo_step_def Let_def by (auto split: option.splits)

lemma geo_count_step: "geo_count ctx \<le> geo_count (geo_step ctx t)"
  using falsy_geo_step_state[of ctx t] falsy_geo_step_zip[of ctx t] falsy_geo_step_city[of ctx t]
  unfolding geo_count_def by auto

lemma geo_count_foldl: "geo_count ctx \<le> geo_count (foldl geo_step ctx ts)"
proof (induction ts arbitrary: ctx)
  case Nil then show ?case by simp
next
  case (Cons t ts)
  have "geo_count ctx \<le> geo_count (geo_step ctx t)" by (rule geo_count_step)
  also have "\<dots> \<le> geo_count (foldl geo_step (geo_step ctx t) ts)" by (rule Cons.IH)
  finally show ?case by simp
qed

lemma geo_count_history: "geo_count (extract_geographic [] q) \<le> geo_count (extract_geographic h q)"
  unfolding extract_geographic_def by (simp add: geo_count_foldl)

lemma geo_count_le3: "geo_count g \<le> 3"
  unfolding geo_count_def by (rule order_trans[OF length_filter_le]) simp

lemma detect_follow_up_empty: "\<not> detect_follow_up q []"
  unfolding detect_follow_up_def by simp

lemma detect_follow_up_short: "h \<noteq> [] \<Longrightarrow> length (split q) \<le> 3 \<Longrightarrow> detect_follow_up q h"
  unfolding detect_follow_up_def by simp

lemma context_confidence_gap:
  assumes h: "h \<noteq> []" and g: "g0 \<le> g1" "g1 \<le> (3::nat)" and k: "1 \<le> k" "k \<le> (5::nat)"
  shows "max 0 (min 1 (round3 (1 / 2 + (1 / 10) * of_nat g0 / 3)))
         < max 0 (min 1 (round3 (1 / 2 + (1 / 10) * of_nat k / 5 + (1 / 10) * of_nat g1 / 3 + 2 / 10)))"
proof -
  let ?a = "1 / 2 + (1 / 10) * of_nat g0 / 3 :: rat"
  let ?b = "1 / 2 + (1 / 10) * of_nat k / 5 + (1 / 10) * of_nat g1 / 3 + 2 / 10 :: rat"
  have g0r: "(of_nat g0 :: rat) \<le> of_nat g1" using g by simp
  have g1r: "(of_nat g1 :: rat) \<le> 3" using g by (metis of_nat_le_iff of_nat_numeral)
  have k1: "(1::rat) \<le> of_nat k" using k by (metis of_nat_le_iff of_nat_1)
  have k5: "(of_nat k :: rat) \<le> 5" using k by (metis of_nat_le_iff of_nat_numeral)
  have g00: "(0::rat) \<le> of_nat g0" by simp
  have ra: "\<bar>round3 ?a - ?a\<bar> \<le> 1 / 2000" by (rule round3_near)
  have rb: "\<bar>round3 ?b - ?b\<bar> \<le> 1 / 2000" by (rule round3_near)
  have ab: "?a + 22 / 100 \<le> ?b" using g0r k1 by simp
  have a0: "1 / 2 \<le> ?a" using g00 by simp
  have b1: "?b \<le> 9 / 10" using g1r k5 by simp
  have lt: "round3 ?a < round3 ?b" using ra rb ab by linarith
  have "0 \<le> round3 ?a" using ra a0 by linarith
  moreover have "round3 ?b \<le> 1" using rb b1 by linarith
  ultimately show ?thesis using lt by (simp add: max_def min_def)
qed

text \<open>
  Claim C1, as amended. For every query of fewer than 3 words: with an empty session
  history \<open>extract\<close> returns \<open>is_follow_up = False\<close> (the guard on an empty history
  comes before the short-query rule), with at least one prior turn it returns
  \<open>is_follow_up = True\<close>, and the context confidence with the empty history is strictly
  less than the context confidence of the same query with the prior turns.
\<close>

theorem follow_up_short_query:
  assumes "h \<noteq> []" and "length (split q) < 3"
  shows "\<not> is_follow_up (context_extract [] q)
       \<and> is_follow_up (context_extract h q)
       \<and> context_confidence (context_extract [] q) < context_confidence (context_extract h q)"
proof -
  have f0: "\<not> detect_follow_up q []" by (rule detect_follow_up_empty)
  have f1: "detect_follow_up q h" using assms by (intro detect_follow_up_short) auto
  let ?g0 = "geo_count (extract_geographic [] q)"
  let ?g1 = "geo_count (extract_geographic h q)"
  let ?k = "min (length h) 5"
  have k: "1 \<le> ?k" "?k \<le> 5" using assms(1) by (cases h; simp)+
  have c0: "context_confidence (context_extract [] q) = max 0 (min 1 (round3 (1 / 2 + (1 / 10) * of_nat ?g0 / 3)))"
    unfolding context_extract_def context_calculate_confidence_def using f0 by (simp add: Let_def)
  have c1: "context_confidence (context_extract h q)
          = max 0 (min 1 (round3 (1 / 2 + (1 / 10) * of_nat ?k / 5 + (1 / 10) * of_nat ?g1 / 3 + 2 / 10)))"
    unfolding context_extract_def context_calculate_confidence_def using f1 assms(1) by (simp add: Let_def)
  have "context_confidence (context_extract [] q) < context_confidence (context_extract h q)"
    unfolding c0 c1 by (rule context_confidence_gap[OF assms(1) geo_count_history geo_count_le3 k])
  moreover have "\<not> is_follow_up (context_extract [] q)" unfolding context_extract_def using f0 by (simp add: Let_def)
  moreover have "is_follow_up (context_extract h q)" unfolding context_extract_def using f1 by (simp add: Let_def)
  ultimately show ?thesis by simp
qed

theorem follow_up_short_query_witness:
  "[\<lparr> role = ''user'', content = ContentStr ''customers in NV'' \<rparr>] \<noteq> []
   \<and> length (split ''tell me'') < 3
   \<and> \<not> is_follow_up (context_extract [] ''tell me'')
   \<and> is_follow_up (context_extract [\<lparr> role = ''user'', content = ContentStr ''customers in NV'' \<rparr>] ''tell me'')
   \<and> context_confidence (context_extract [] ''tell me'')
       < context_confidence
           (context_extract [\<lparr> role = ''user'', content = ContentStr ''customers in NV'' \<rparr>] ''tell me'')"
proof -
  have h: "[\<lparr> role = ''user'', content = ContentStr ''customers in NV'' \<rparr>] \<noteq> []" by simp
  have n: "length (split ''tell me'') < 3" by code_simp
  show ?thesis using follow_up_short_query[OF h n] h n by simp
qed

text \<open>
  The claim as stated fails for the two-word query \<open>hi there\<close> with an empty history:
  the follow-up flag is false.
\<close>

theorem follow_up_empty_history:
  "length (split ''hi there'') < 3 \<and> \<not> is_follow_up (context_extract [] ''hi there'')"
  by code_simp

lemma context_confidence_bounds:
  "0 \<le> context_confidence (context_extract h q) \<and> context_confidence (context_extract h q) \<le> 1"
  unfolding context_extract_def context_calculate_confidence_def by (simp add: Let_def)

lemma estimate_confidence_bounds:
  "0 \<le> estimate_confidence r t \<and> estimate_confidence r t \<le> 1"
  unfolding estimate_confidence_def by (simp add: Let_def max_def min_def)

subsection \<open>State names and state codes\<close>

lemma upper_is_word: "is_upper c \<Longrightarrow> is_word c"
  by (simp add: is_word_def)

lemma code_group_match:
  "group_match WordB (Seq (Cls is_upper) (Cls is_upper)) WordB (p, s) =
     (case s of
        a # b # r \<Rightarrow>
          (if \<not> is_word_opt p \<and> is_upper a \<and> is_upper b \<and> \<not> is_word_opt (next_char r)
           then [[a, b]] else [])
      | _ \<Rightarrow> [])"
proof (cases s)
  case Nil
  then show ?thesis by (simp add: group_match_def)
next
  case (Cons a s')
  show ?thesis
  proof (cases s')
    case Nil
    then show ?thesis using Cons by (simp add: group_match_def)
  next
    case (Cons b r)
    then show ?thesis using \<open>s = a # s'\<close>
      by (auto simp: group_match_def next_char_def is_word_opt_def upper_is_word split: list.splits)
  qed
qed

text \<open>A match that starts inside a text ending in a non-word character ends inside it.\<close>

lemma code_group_match_append:
  assumes "\<not> is_word (last (c # cs))"
  shows "group_match WordB (Seq (Cls is_upper) (Cls is_upper)) WordB (p, (c # cs) @ rest)
       = group_match WordB (Seq (Cls is_upper) (Cls is_upper)) WordB (p, c # cs)"
proof (cases cs)
  case Nil
  then have "\<not> is_upper c" using assms upper_is_word by auto
  then show ?thesis using Nil by (cases rest) (simp_all add: code_group_match)
next
  case (Cons d ds)
  show ?thesis
  proof (cases ds)
    case Nil
    then have "\<not> is_upper d" using assms Cons upper_is_word by auto
    then show ?thesis using Nil Cons by (simp add: code_group_match)
  next
    case (Cons e es)
    then show ?thesis using \<open>cs = d # ds\<close> by (simp add: code_group_match next_char_def)
  qed
qed

lemma code_search_append:
  assumes "pre = [] \<or> \<not> is_word (last pre)"
  shows "search_group_from WordB (Seq (Cls is_upper) (Cls is_upper)) WordB p (pre @ rest)
       = (case search_group_from WordB (Seq (Cls is_upper) (Cls is_upper)) WordB p pre of
            Some g \<Rightarrow> Some g
          | None \<Rightarrow> search_group_from WordB (Seq (Cls is_upper) (Cls is_upper)) WordB
                      (if pre = [] then p else Some (last pre)) rest)"
  using assms
proof (induction pre arbitrary: p)
  case Nil
  show ?case by (simp add: code_group_match)
next
  case (Cons c cs)
  have nw: "\<not> is_word (last (c # cs))" using Cons.prems by simp
  have cs: "cs = [] \<or> \<not> is_word (last cs)" using Cons.prems by (cases cs) auto
  note gm = code_group_match_append[OF nw, of p rest]
  note ih = Cons.IH[OF cs, of "Some c"]
  let ?S = "search_group_from WordB (Seq (Cls is_upper) (Cls is_upper)) WordB"
  have e: "(if c # cs = [] then p else Some (last (c # cs)))
           = (if cs = [] then Some c else Some (last cs))" by simp
  show ?case
  proof (cases "group_match WordB (Seq (Cls is_upper) (Cls is_upper)) WordB (p, c # cs)")
    case Nil
    have l: "?S p ((c # cs) @ rest) = ?S (Some c) (cs @ rest)" using gm Nil by simp
    have r: "?S p (c # cs) = ?S (Some c) cs" using Nil by simp
    show ?thesis unfolding l r e by (rule ih)
  next
    case (Cons g gs)
    have l: "?S p ((c # cs) @ rest) = Some g" using gm Cons by simp
    have r: "?S p (c # cs) = Some g" using Cons by simp
    show ?thesis unfolding l r by simp
  qed
qed

lemma code_search_nonword_head:
  assumes "post = [] \<or> \<not> is_word (hd post)"
  shows "search_group_from WordB (Seq (Cls is_upper) (Cls is_upper)) WordB p post
       = search_group_from WordB (Seq (Cls is_upper) (Cls is_upper)) WordB p' post"
proof (cases post)
  case Nil
  then show ?thesis by (simp add: code_group_match)
next
  case (Cons c cs)
  then have "\<not> is_upper c" using assms upper_is_word by auto
  then show ?thesis using Cons by (cases cs) (simp_all add: code_group_match)
qed

lemma upper_N: "is_upper CHR ''N''"
  by code_simp
lemma upper_V: "is_upper CHR ''V''"
  by code_simp
lemma lower_nevada: "lower ''Nevada'' = ''nevada''"
  by code_simp
lemma nv_valid: "''NV'' \<in> set VALID_STATES"
  by code_simp
lemma nevada_letters:
  "\<not> is_upper CHR ''e''" "\<not> is_upper CHR ''v''" "\<not> is_upper CHR ''a''" "\<not> is_upper CHR ''d''"
  by code_simp+

lemma code_search_nevada:
  "search_group_from WordB (Seq (Cls is_upper) (Cls is_upper)) WordB p (''Nevada'' @ post)
   = search_group_from WordB (Seq (Cls is_upper) (Cls is_upper)) WordB (Some CHR ''a'') post"
  by (cases post) (simp_all add: code_group_match nevada_letters)

lemma name_query_code:
  assumes "pre = [] \<or> \<not> is_word (last pre)" and "post = [] \<or> \<not> is_word (hd post)"
  shows "state_code_search (pre @ ''Nevada'' @ post)
       = (case state_code_search pre of Some g \<Rightarrow> Some g | None \<Rightarrow> state_code_search post)"
  unfolding state_code_search_def re_search_group_def code_search_append[OF assms(1)] code_search_nevada
  using code_search_nonword_head[OF assms(2), of "Some CHR ''a''" None]
  by (simp split: option.splits)

lemma code_query_code:
  assumes "pre = [] \<or> \<not> is_word (last pre)" and "post = [] \<or> \<not> is_word (hd post)"
  shows "state_code_search (pre @ ''NV'' @ post)
       = (case state_code_search pre of Some g \<Rightarrow> Some g | None \<Rightarrow> Some ''NV'')"
proof -
  have a: "\<not> is_word_opt (if pre = [] then None else Some (last pre))"
    using assms(1) by (auto simp: is_word_opt_def)
  have b: "\<not> is_word_opt (next_char post)"
    using assms(2) by (cases post) (auto simp: is_word_opt_def next_char_def)
  have k: "search_group_from WordB (Seq (Cls is_upper) (Cls is_upper)) WordB
          (if pre = [] then None else Some (last pre)) (''NV'' @ post) = Some ''NV''"
    using a b by (simp add: code_group_match upper_N upper_V)
  show ?thesis
    unfolding state_code_search_def re_search_group_def code_search_append[OF assms(1)] k
    by (rule refl)
qed

lemma find_state_name_first:
  assumes "\<forall>(name, code) \<in> set before. \<not> str_in name t" and "str_in n t"
  shows "find_state_name (before @ (n, c) # rest) t = Some c"
  using assms by (induction before) auto

lemma state_names_split:
  "STATE_NAMES = takeWhile (\<lambda>(n, c). n \<noteq> ''nevada'') STATE_NAMES
                 @ (''nevada'', ''NV'') # drop 28 STATE_NAMES"
  by code_simp

lemma lower_append: "lower (a @ b) = lower a @ lower b"
  by (simp add: lower_def)

lemma name_query_names:
  assumes "\<forall>(name, code) \<in> set (takeWhile (\<lambda>(n, c). n \<noteq> ''nevada'') STATE_NAMES).
             \<not> str_in name (lower (pre @ ''Nevada'' @ post))"
  shows "find_state_name STATE_NAMES (lower (pre @ ''Nevada'' @ post)) = Some ''NV''"
proof -
  have "str_in ''nevada'' (lower (pre @ ''Nevada'' @ post))"
    unfolding lower_append lower_nevada str_in_def by (rule sublist_appendI)
  then have "find_state_name
          (takeWhile (\<lambda>(n, c). n \<noteq> ''nevada'') STATE_NAMES @ (''nevada'', ''NV'') # drop 28 STATE_NAMES)
          (lower (pre @ ''Nevada'' @ post)) = Some ''NV''"
    using assms by (intro find_state_name_first)
  then show ?thesis using state_names_split by simp
qed

lemma extract_geographic_state:
  "geo_state (extract_geographic [] q) = find_state q"
  unfolding extract_geographic_def geo_step_def
  by (auto simp: Let_def falsy_def split: option.splits)

text \<open>
  Claim C8, as amended. Take two queries with an empty history that differ only in that
  one has the state name \<open>Nevada\<close> where the other has the code \<open>NV\<close>. Suppose that
  the text before has no two-letter upper-case word of its own other than \<open>NV\<close>, that
  the code stands as a word (the text before is empty or ends in a non-word character,
  the text after is empty or starts with one), that the first two-letter upper-case word
  of the text after, if there is one, is not a valid state code other than \<open>NV\<close>, and
  that no state name listed before \<open>nevada\<close> in the name table occurs in the lower-cased
  name query. Then \<open>_extract_geographic\<close> yields the state \<open>NV\<close> for both.
\<close>

theorem nevada_round_trip:
  assumes "state_code_search pre = None \<or> state_code_search pre = Some ''NV''"
      and "pre = [] \<or> \<not> is_word (last pre)"
      and "post = [] \<or> \<not> is_word (hd post)"
      and "state_code_search post \<notin> Some ` (set VALID_STATES - {''NV''})"
      and "\<forall>(name, code) \<in> set (takeWhile (\<lambda>(n, c). n \<noteq> ''nevada'') STATE_NAMES).
             \<not> str_in name (lower (pre @ ''Nevada'' @ post))"
  shows "geo_state (extract_geographic [] (pre @ ''Nevada'' @ post)) = Some ''NV''
       \<and> geo_state (extract_geographic [] (pre @ ''NV'' @ post)) = Some ''NV''"
proof -
  note n = name_query_names[OF assms(5)]
  have q2: "state_code_search (pre @ ''NV'' @ post) = Some ''NV''"
    unfolding code_query_code[OF assms(2,3)] using assms(1) by auto
  have "find_state (pre @ ''NV'' @ post) = Some ''NV''"
    unfolding find_state_def q2 using nv_valid by simp
  moreover have "find_state (pre @ ''Nevada'' @ post) = Some ''NV''"
  proof (cases "state_code_search (pre @ ''Nevada'' @ post)")
    case None
    then show ?thesis unfolding find_state_def using n by simp
  next
    case (Some g)
    then have "g = ''NV'' \<or> g \<notin> set VALID_STATES"
      using assms(1,4) unfolding name_query_code[OF assms(2,3)]
      by (auto split: option.splits)
    then show ?thesis unfolding find_state_def Some using n nv_valid by auto
  qed
  ultimately show ?thesis unfolding extract_geographic_state by simp
qed

theorem nevada_round_trip_witness:
  "state_code_search ''NASA customers in '' = None
   \<and> \<not> is_word (last ''NASA customers in '')
   \<and> \<not> is_word (hd '', US'')
   \<and> state_code_search '', US'' = Some ''US''
   \<and> geo_state (extract_geographic [] (''NASA customers in '' @ ''Nevada'' @ '', US'')) = Some ''NV''
   \<and> geo_state (extract_geographic [] (''NASA customers in '' @ ''NV'' @ '', US'')) = Some ''NV''"
proof -
  have c: "state_code_search ''NASA customers in '' = None"
    by code_simp
  have h1: "state_code_search ''NASA customers in '' = None
            \<or> state_code_search ''NASA customers in '' = Some ''NV''"
    using c by simp
  have w2: "\<not> is_word (last ''NASA customers in '')"
    by code_simp
  have h2: "''NASA customers in '' = [] \<or> \<not> is_word (last ''NASA customers in '')"
    using w2 by simp
  have w3: "\<not> is_word (hd '', US'')"
    by code_simp
  have h3: "'', US'' = [] \<or> \<not> is_word (hd '', US'')"
    using w3 by simp
  have u: "state_code_search '', US'' = Some ''US''"
    by code_simp
  have h4: "state_code_search '', US'' \<notin> Some ` (set VALID_STATES - {''NV''})"
    by code_simp
  have h5: "\<forall>(name, code) \<in> set (takeWhile (\<lambda>(n, c). n \<noteq> ''nevada'') STATE_NAMES).
              \<not> str_in name (lower (''NASA customers in '' @ ''Nevada'' @ '', US''))"
    by code_simp
  show ?thesis using nevada_round_trip[OF h1 h2 h3 h4 h5] c w2 w3 u by simp
qed

text \<open>
  The claim as stated fails, and each condition above is needed. A valid code that comes
  first wins over both (\<open>OK\<close>); a valid code later in the text wins over the name but
  not over the code (\<open>CA\<close>); a state name earlier in the table wins over \<open>nevada\<close>
  (\<open>Kansas\<close>); the code is found only as a word of its own (\<open>state_NV\<close>, \<open>NVs\<close>). Only
  the first two-letter upper-case word of a text is tried as a code, so after the word
  \<open>US\<close> the code query yields no state.
\<close>

theorem nevada_round_trip_failures:
  "geo_state (extract_geographic [] ''OK customers in Nevada'') = Some ''OK''
   \<and> geo_state (extract_geographic [] ''OK customers in NV'') = Some ''OK''
   \<and> geo_state (extract_geographic [] ''Customers in Nevada, CA'') = Some ''CA''
   \<and> geo_state (extract_geographic [] ''Customers in NV, CA'') = Some ''NV''
   \<and> geo_state (extract_geographic [] ''Kansas or Nevada'') = Some ''KS''
   \<and> geo_state (extract_geographic [] ''Kansas or NV'') = Some ''NV''
   \<and> geo_state (extract_geographic [] ''state_Nevada'') = Some ''NV''
   \<and> geo_state (extract_geographic [] ''state_NV'') = None
   \<and> geo_state (extract_geographic [] ''customers in Nevadas'') = Some ''NV''
   \<and> geo_state (extract_geographic [] ''customers in NVs'') = None
   \<and> geo_state (extract_geographic [] ''US customers in Nevada'') = Some ''NV''
   \<and> geo_state (extract_geographic [] ''US customers in NV'') = None"
  by code_simp

subsection \<open>Nova agent\<close>

lemma generate_unavailable:
  "\<not> available agent \<Longrightarrow> generate agent outcome query sr = (fallback_response query sr, agent)"
  unfolding generate_def by simp

lemma generate_all_unavailable:
  "\<not> available agent \<Longrightarrow>
   generate_all agent calls = (map (\<lambda>(outcome, query, sr). fallback_response query sr) calls, agent)"
  by (induction calls) (auto simp: generate_unavailable)

lemma generate_access_error:
  "available agent \<Longrightarrow> access_error (get_or message rendering) \<Longrightarrow>
   generate agent (RaisedClientError message rendering) query sr
     = (fallback_response query sr, agent\<lparr>available := False\<rparr>)"
  unfolding generate_def by (simp add: Let_def)

lemma generate_other_client_error:
  "available agent \<Longrightarrow> \<not> access_error (get_or message rendering) \<Longrightarrow>
   generate agent (RaisedClientError message rendering) query sr = (fallback_response query sr, agent)"
  unfolding generate_def by (simp add: Let_def)

lemma generate_exception:
  "generate agent RaisedException query sr = (fallback_response query sr, agent)"
  unfolding generate_def by simp

lemma fallback_static:
  "results sr = [] \<Longrightarrow> response_text (fallback_response query sr) = AI_UNAVAILABLE"
  unfolding fallback_response_def by simp

lemma fallback_templated:
  "results sr \<noteq> [] \<Longrightarrow>
   response_text (fallback_response query sr)
     = join [CHR 0x0A]
         ([''Found '' @ str_int (total_matches sr) @ '' customer(s):'']
          @ map (\<lambda>cu. ''  - '' @ get_or (c_crid cu) ''N/A'' @ '': '' @ get_or (c_name cu) ''N/A''
                        @ '' ('' @ get_or (c_city cu) ''N/A'' @ '', '' @ get_or (c_state cu) ''N/A'' @ '')'')
                (take 5 (results sr))
          @ (if total_matches sr > 5
             then [''  ... and '' @ str_int (total_matches sr - 5) @ '' more''] else []))"
  unfolding fallback_response_def fallback_line_def by (simp add: Let_def)

text \<open>
  Claim C6. When \<open>generate\<close> meets a client error whose message indicates an access or
  credentials problem, the availability flag becomes false, and that call and every later
  call on the agent, whatever its outcome would have been, returns the fallback. The
  fallback is built from the search results: a line with the total, a line with the
  CRID, name, city and state of each of the first five records, and a line with the
  number of further matches when the total exceeds five; it is the static
  AI-unavailable message when there are no search results. Another exception, or a
  client error without such a message, falls back as well and leaves the agent as it was.
\<close>

theorem access_error_disables_agent:
  assumes "available agent" and "access_error (get_or message rendering)"
  shows "generate_all agent ((RaisedClientError message rendering, query, sr) # calls)
           = (map (\<lambda>(outcome, query, sr). fallback_response query sr)
                  ((RaisedClientError message rendering, query, sr) # calls),
              agent\<lparr>available := False\<rparr>)
         \<and> (results sr \<noteq> [] \<longrightarrow>
              response_text (fallback_response query sr)
                = join [CHR 0x0A]
                    ([''Found '' @ str_int (total_matches sr) @ '' customer(s):'']
                     @ map (\<lambda>cu. ''  - '' @ get_or (c_crid cu) ''N/A'' @ '': '' @ get_or (c_name cu) ''N/A''
                                   @ '' ('' @ get_or (c_city cu) ''N/A'' @ '', ''
                                   @ get_or (c_state cu) ''N/A'' @ '')'')
                           (take 5 (results sr))
                     @ (if total_matches sr > 5
                        then [''  ... and '' @ str_int (total_matches sr - 5) @ '' more''] else [])))
         \<and> (results sr = [] \<longrightarrow> response_text (fallback_response query sr) = AI_UNAVAILABLE)
         \<and> generate agent RaisedException query sr = (fallback_response query sr, agent)
         \<and> (\<not> access_error (get_or message' rendering') \<longrightarrow>
              generate agent (RaisedClientError message' rendering') query sr
                = (fallback_response query sr, agent))"
proof -
  have "generate_all (agent\<lparr>available := False\<rparr>) calls
          = (map (\<lambda>(outcome, query, sr). fallback_response query sr) calls, agent\<lparr>available := False\<rparr>)"
    by (rule generate_all_unavailable) simp
  then have "generate_all agent ((RaisedClientError message rendering, query, sr) # calls)
           = (map (\<lambda>(outcome, query, sr). fallback_response query sr)
                  ((RaisedClientError message rendering, query, sr) # calls),
              agent\<lparr>available := False\<rparr>)"
    using generate_access_error[OF assms] by simp
  then show ?thesis
    using fallback_templated fallback_static generate_exception generate_other_client_error[OF assms(1)]
    by blast
qed

theorem access_error_disables_agent_witness:
  "available example_agent
   \<and> access_error (get_or (Some ''AccessDeniedException: Access denied'') ''ClientError'')
   \<and> generate_all example_agent
        [(RaisedClientError (Some ''AccessDeniedException: Access denied'') ''ClientError'',
          ''customers in NV'', \<lparr> results = example_customers, total_matches = 7 \<rparr>),
         (Completed ''Hello'' [] [], ''hi'', \<lparr> results = [], total_matches = 0 \<rparr>)]
      = ([fallback_response ''customers in NV'' \<lparr> results = example_customers, total_matches = 7 \<rparr>,
          fallback_response ''hi'' \<lparr> results = [], total_matches = 0 \<rparr>],
         example_agent\<lparr>available := False\<rparr>)
   \<and> response_text (fallback_response ''customers in NV'' \<lparr> results = example_customers, total_matches = 7 \<rparr>)
       = ''Found 7 customer(s):'' @ [CHR 0x0A]
         @ ''  - CRID-000042: Ann Lee (Reno, NV)'' @ [CHR 0x0A]
         @ ''  - CRID-000043: Bob Ray (Fresno, ca)'' @ [CHR 0x0A]
         @ ''  - CRID-000044: Cy Dunn (Las Vegas, nv)'' @ [CHR 0x0A]
         @ ''  ... and 2 more''
   \<and> response_text (fallback_response ''hi'' \<lparr> results = [], total_matches = 0 \<rparr>)
       = ''AI features are not available. Please use direct search or autocomplete endpoints.''
   \<and> \<not> access_error (get_or None ''ThrottlingException'')
   \<and> generate example_agent (RaisedClientError None ''ThrottlingException'') ''hi''
        \<lparr> results = [], total_matches = 0 \<rparr>
      = (fallback_response ''hi'' \<lparr> results = [], total_matches = 0 \<rparr>, example_agent)"
proof -
  let ?sr = "\<lparr> results = example_customers, total_matches = 7 \<rparr>"
  let ?empty = "\<lparr> results = [], total_matches = 0 \<rparr>"
  have h1: "available example_agent"
    by (simp add: example_agent_def)
  have h2: "access_error (get_or (Some ''AccessDeniedException: Access denied'') ''ClientError'')"
    by code_simp
  have h3: "\<not> access_error (get_or None ''ThrottlingException'')"
    by code_simp
  have ne: "results ?sr \<noteq> []"
    by (simp add: example_customers_def)
  have f1: "join [CHR 0x0A]
              ([''Found '' @ str_int (total_matches ?sr) @ '' customer(s):'']
               @ map (\<lambda>cu. ''  - '' @ get_or (c_crid cu) ''N/A'' @ '': '' @ get_or (c_name cu) ''N/A''
                             @ '' ('' @ get_or (c_city cu) ''N/A'' @ '', ''
                             @ get_or (c_state cu) ''N/A'' @ '')'')
                     (take 5 (results ?sr))
               @ (if total_matches ?sr > 5
                  then [''  ... and '' @ str_int (total_matches ?sr - 5) @ '' more''] else []))
            = ''Found 7 customer(s):'' @ [CHR 0x0A]
              @ ''  - CRID-000042: Ann Lee (Reno, NV)'' @ [CHR 0x0A]
              @ ''  - CRID-000043: Bob Ray (Fresno, ca)'' @ [CHR 0x0A]
              @ ''  - CRID-000044: Cy Dunn (Las Vegas, nv)'' @ [CHR 0x0A]
              @ ''  ... and 2 more''"
    by code_simp
  note t1 = access_error_disables_agent[OF h1 h2, of "''customers in NV''" ?sr
            "[(Completed ''Hello'' [] [], ''hi'', ?empty)]" None "''ThrottlingException''"]
  note t0 = access_error_disables_agent[OF h1 h2, of "''hi''" ?empty "[]"
            None "''ThrottlingException''"]
  have a: "generate_all example_agent
        [(RaisedClientError (Some ''AccessDeniedException: Access denied'') ''ClientError'',
          ''customers in NV'', ?sr), (Completed ''Hello'' [] [], ''hi'', ?empty)]
      = ([fallback_response ''customers in NV'' ?sr, fallback_response ''hi'' ?empty],
         example_agent\<lparr>available := False\<rparr>)"
    using t1 by simp
  have b: "response_text (fallback_response ''customers in NV'' ?sr)
       = ''Found 7 customer(s):'' @ [CHR 0x0A]
         @ ''  - CRID-000042: Ann Lee (Reno, NV)'' @ [CHR 0x0A]
         @ ''  - CRID-000043: Bob Ray (Fresno, ca)'' @ [CHR 0x0A]
         @ ''  - CRID-000044: Cy Dunn (Las Vegas, nv)'' @ [CHR 0x0A]
         @ ''  ... and 2 more''"
    using t1 ne f1 by simp
  have c: "response_text (fallback_response ''hi'' ?empty)
       = ''AI features are not available. Please use direct search or autocomplete endpoints.''"
    using t0 by (simp add: AI_UNAVAILABLE_def)
  have d: "generate example_agent (RaisedClientError None ''ThrottlingException'') ''hi'' ?empty
      = (fallback_response ''hi'' ?empty, example_agent)"
    using t0 h3 by simp
  show ?thesis using h1 h2 h3 a b c d by simp
qed

subsection \<open>Confidence values\<close>

text \<open>
  Claim C7. The confidence of \<open>IntentAgent.classify\<close>, the context confidence of
  \<open>ContextAgent.extract\<close> and the confidence estimate of \<open>NovaAgent._estimate_confidence\<close>
  lie between 0 and 1, for every input.
\<close>

theorem confidence_in_unit_interval:
  "0 \<le> confidence (classify query) \<and> confidence (classify query) \<le> 1
   \<and> 0 \<le> context_confidence (context_extract history query)
   \<and> context_confidence (context_extract history query) \<le> 1
   \<and> 0 \<le> estimate_confidence response used \<and> estimate_confidence response used \<le> 1"
  using classify_confidence_bounds context_confidence_bounds estimate_confidence_bounds by blast


theorem confidence_in_unit_interval_witness:
  "0 \<le> confidence (classify ''how many customers in Nevada'')
   \<and> confidence (classify ''how many customers in Nevada'') \<le> 1
   \<and> 0 \<le> context_confidence (context_extract [] ''how many customers in Nevada'')
   \<and> context_confidence (context_extract [] ''how many customers in Nevada'') \<le> 1
   \<and> 0 \<le> estimate_confidence ''There are 2 customers in NV.'' [''get_stats'']
   \<and> estimate_confidence ''There are 2 customers in NV.'' [''get_stats''] \<le> 1"
  by (rule confidence_in_unit_interval)

subsection \<open>Data source\<close>

lemma dict_keys_Nil: "dict_keys [] = []"
  by (simp add: dict_keys_def)

lemma dict_keys_Cons: "dict_keys ((k, v) # d) = k # dict_keys d"
  by (simp add: dict_keys_def)

lemma dict_get_set: "dict_get (dict_set d k v) k' = (if k' = k then Some v else dict_get d k')"
  by (induction d k v rule: dict_set.induct) auto

lemma dict_get_None_iff: "dict_get d k = None \<longleftrightarrow> k \<notin> set (dict_keys d)"
  by (induction d k rule: dict_get.induct) (auto simp: dict_keys_Nil dict_keys_Cons)

lemma dict_keys_set: "set (dict_keys (dict_set d k v)) = insert k (set (dict_keys d))"
  by (induction d k v rule: dict_set.induct) (auto simp: dict_keys_Nil dict_keys_Cons)

lemma index_state_get:
  "k \<noteq> [] \<Longrightarrow>
   dict_get (foldl index_state acc cs) k =
     (if filter (\<lambda>cu. state_of cu = k) cs = [] then dict_get acc k
      else Some (get_or (dict_get acc k) [] @ filter (\<lambda>cu. state_of cu = k) cs))"
proof (induction cs arbitrary: acc)
  case Nil then show ?case by simp
next
  case (Cons cu cs)
  show ?case
    using Cons.prems Cons.IH[OF Cons.prems, of "index_state acc cu"]
    by (auto simp: index_state_def Let_def dict_get_set get_or_def)
qed

lemma count_state_get:
  "k \<noteq> [] \<Longrightarrow>
   dict_get (foldl count_state acc cs) k =
     (if filter (\<lambda>cu. state_of cu = k) cs = [] then dict_get acc k
      else Some (get_or (dict_get acc k) 0 + length (filter (\<lambda>cu. state_of cu = k) cs)))"
proof (induction cs arbitrary: acc)
  case Nil then show ?case by simp
next
  case (Cons cu cs)
  show ?case
    using Cons.prems Cons.IH[OF Cons.prems, of "count_state acc cu"]
    by (auto simp: count_state_def Let_def dict_get_set get_or_def)
qed

lemma index_state_keys:
  "set (dict_keys (foldl index_state acc cs)) = set (dict_keys acc) \<union> {k. k \<noteq> [] \<and> k \<in> state_of ` set cs}"
proof (induction cs arbitrary: acc)
  case Nil then show ?case by simp
next
  case (Cons cu cs)
  show ?case unfolding foldl_Cons Cons.IH
    by (auto simp: index_state_def Let_def dict_keys_set)
qed

lemma count_state_keys:
  "set (dict_keys (foldl count_state acc cs)) = set (dict_keys acc) \<union> {k. k \<noteq> [] \<and> k \<in> state_of ` set cs}"
proof (induction cs arbitrary: acc)
  case Nil then show ?case by simp
next
  case (Cons cu cs)
  show ?case unfolding foldl_Cons Cons.IH
    by (auto simp: count_state_def Let_def dict_keys_set)
qed

lemma load_fields:
  "customers (load cs ds0) = cs"
  "by_state (load cs ds0) = foldl index_state [] cs"
  "by_crid (load cs ds0) = foldl index_crid [] cs"
  "state_counts (metadata (load cs ds0)) = foldl count_state [] cs"
  "available_states (metadata (load cs ds0)) = map fst (sort_key (\<lambda>x. - int (snd x)) (foldl count_state [] cs))"
  unfolding load_def build_indexes_def build_metadata_def by (simp_all add: Let_def)

lemma load_available_states:
  "set (available_states (metadata (load cs ds0))) = set (dict_keys (by_state (load cs ds0)))"
proof -
  have "set (available_states (metadata (load cs ds0))) = set (dict_keys (foldl count_state [] cs))"
    unfolding load_fields dict_keys_def by simp
  also have "\<dots> = set (dict_keys (foldl index_state [] cs))"
    unfolding count_state_keys index_state_keys by (simp add: dict_keys_Nil)
  finally show ?thesis unfolding load_fields .
qed

lemma load_key_nonempty: "k \<in> set (dict_keys (by_state (load cs ds0))) \<Longrightarrow> k \<noteq> []"
  unfolding load_fields index_state_keys by (simp add: dict_keys_def)

lemma load_state_counts:
  assumes "k \<in> set (dict_keys (by_state (load cs ds0)))"
  shows "dict_get (state_counts (metadata (load cs ds0))) k
           = Some (length (get_or (dict_get (by_state (load cs ds0)) k) []))"
proof -
  have k: "k \<noteq> []" using assms by (rule load_key_nonempty)
  have "k \<in> state_of ` set cs" using assms unfolding load_fields index_state_keys by (simp add: dict_keys_def)
  then have ne: "filter (\<lambda>cu. state_of cu = k) cs \<noteq> []" by (auto simp: filter_empty_conv)
  show ?thesis unfolding load_fields index_state_get[OF k] count_state_get[OF k] using ne
    by (simp add: get_or_def)
qed

lemma load_state_list:
  assumes "k \<in> set (dict_keys (by_state (load cs ds0)))"
  shows "get_or (dict_get (by_state (load cs ds0)) k) [] = filter (\<lambda>cu. state_of cu = k) cs"
proof -
  have k: "k \<noteq> []" using assms by (rule load_key_nonempty)
  show ?thesis unfolding load_fields index_state_get[OF k] by (simp add: get_or_def)
qed

text \<open>
  Claim C4, as amended. On a loaded data source, a search with a non-empty state filter
  whose upper-cased value is not a key of the state index fails with the error
  \<open>state_not_available\<close>: the result names the requested state and carries the available
  states, which are exactly the keys of the state index, with the number of loaded
  records of each. It is never a successful result. An empty string as the state is
  taken as no state filter.
\<close>

theorem search_state_not_available:
  assumes "s \<noteq> []" and "upper s \<notin> set (dict_keys (by_state (load cs ds0)))"
  shows "\<exists>e. search (load cs ds0) (Some s) city min_moves ctype has_apartment limit = SearchFailure e
            \<and> \<not> success (search (load cs ds0) (Some s) city min_moves ctype has_apartment limit)
            \<and> error e = ''state_not_available''
            \<and> requested_state e = upper s
            \<and> set (err_available_states e) = set (dict_keys (by_state (load cs ds0)))
            \<and> available_states_with_counts e = state_counts (metadata (load cs ds0))
            \<and> (\<forall>k \<in> set (err_available_states e).
                  dict_get (available_states_with_counts e) k
                    = Some (length (filter (\<lambda>cu. state_of cu = k) cs)))"
proof -
  let ?ds = "load cs ds0"
  let ?e = "state_not_available ?ds s (upper s)"
  have r: "search ?ds (Some s) city min_moves ctype has_apartment limit = SearchFailure ?e"
    unfolding search_def using assms by (simp add: Let_def)
  have a: "set (err_available_states ?e) = set (dict_keys (by_state ?ds))"
    unfolding state_not_available_def by (simp add: load_available_states)
  have c: "\<forall>k \<in> set (err_available_states ?e).
             dict_get (available_states_with_counts ?e) k
               = Some (length (filter (\<lambda>cu. state_of cu = k) cs))"
  proof
    fix k assume "k \<in> set (err_available_states ?e)"
    then have k: "k \<in> set (dict_keys (by_state ?ds))" using a by simp
    have "dict_get (state_counts (metadata ?ds)) k = Some (length (filter (\<lambda>cu. state_of cu = k) cs))"
      using load_state_counts[OF k] load_state_list[OF k] by simp
    then show "dict_get (available_states_with_counts ?e) k
               = Some (length (filter (\<lambda>cu. state_of cu = k) cs))"
      unfolding state_not_available_def by simp
  qed
  show ?thesis
    apply (rule exI[of _ ?e])
    using r a c by (simp add: success_def state_not_available_def)
qed


theorem search_state_not_available_witness:
  "''tx'' \<noteq> []
   \<and> upper ''tx'' \<notin> set (dict_keys (by_state (load example_customers new_data_source)))
   \<and> search (load example_customers new_data_source) (Some ''tx'') None None None None None
      = SearchFailure
          \<lparr> error = ''state_not_available'', requested_state = ''TX'',
            requested_state_name = ''Texas'', err_available_states = [''NV'', ''CA''],
            available_states_with_counts = [(''NV'', 2), (''CA'', 1)],
            suggestion = ''Texas is not in our database. We have data for 2 states.'' \<rparr>
   \<and> (\<exists>e. search (load example_customers new_data_source) (Some ''tx'') None None None None None
            = SearchFailure e
          \<and> error e = ''state_not_available'' \<and> requested_state e = upper ''tx'')"
proof -
  have h1: "''tx'' \<noteq> []" by simp
  have h2: "upper ''tx'' \<notin> set (dict_keys (by_state (load example_customers new_data_source)))"
    by code_simp
  have v: "search (load example_customers new_data_source) (Some ''tx'') None None None None None
      = SearchFailure
          \<lparr> error = ''state_not_available'', requested_state = ''TX'',
            requested_state_name = ''Texas'', err_available_states = [''NV'', ''CA''],
            available_states_with_counts = [(''NV'', 2), (''CA'', 1)],
            suggestion = ''Texas is not in our database. We have data for 2 states.'' \<rparr>"
    by code_simp
  have "\<exists>e. search (load example_customers new_data_source) (Some ''tx'') None None None None None
            = SearchFailure e
          \<and> error e = ''state_not_available'' \<and> requested_state e = upper ''tx''"
    using search_state_not_available[OF h1 h2, of None None None None None] by blast
  then show ?thesis using h1 h2 v by blast
qed

text \<open>
  The claim as stated fails for the empty string as state filter: its upper-cased value
  is not a key of the state index, and the search succeeds, with an empty result on an
  empty data source and with all records otherwise.
\<close>

theorem search_empty_state_filter:
  "upper [] \<notin> set (dict_keys (by_state (load [] new_data_source)))
   \<and> search (load [] new_data_source) (Some []) None None None None None = SearchSuccess 0 []
   \<and> upper [] \<notin> set (dict_keys (by_state (load example_customers new_data_source)))
   \<and> search (load example_customers new_data_source) (Some []) None None None None None
       = SearchSuccess 3 example_customers"
  by code_simp

lemma finish_search_simps:
  "finish_search rs None = SearchSuccess (length rs) rs"
  "finish_search rs (Some 0) = SearchSuccess (length rs) rs"
  "0 < n \<Longrightarrow> finish_search rs (Some n) = SearchSuccess (length rs) (take (nat n) rs)"
  unfolding finish_search_def slice_to_def by simp_all

lemma filter_stage: "\<exists>P. (if b then filter Q (filter Pa rs) else filter Pa rs) = filter P rs"
  by (cases b) auto

lemma filter_id: "\<exists>P. rs = filter P rs"
  by (rule exI[of _ "\<lambda>_. True"]) simp

lemma moves_stage:
  "\<exists>P. (case min_moves of
           Some m \<Rightarrow> (if m \<noteq> 0 then filter (\<lambda>cu. m \<le> get_or (c_move_count cu) 0) rs else rs)
         | None \<Rightarrow> rs) = filter P rs"
proof (cases min_moves)
  case None
  show ?thesis unfolding None option.case by (rule filter_id)
next
  case (Some m)
  show ?thesis
  proof (cases "m = 0")
    case True
    then show ?thesis unfolding Some option.case using filter_id[of rs] by simp
  next
    case False
    then show ?thesis unfolding Some option.case by auto
  qed
qed

lemma city_stage:
  "\<exists>P. (case city of
           Some ci \<Rightarrow> (if ci \<noteq> [] then
                         filter (\<lambda>cu. str_in (lower ci) (lower (get_or (c_city cu) []))) (filter Pa rs)
                       else filter Pa rs)
         | None \<Rightarrow> filter Pa rs) = filter P rs"
proof (cases city)
  case None then show ?thesis by auto
next
  case (Some ci)
  show ?thesis unfolding Some option.case by (rule filter_stage)
qed

lemma type_stage:
  "\<exists>P. (case ctype of
           Some ct \<Rightarrow> (if ct \<noteq> [] then
                         filter (\<lambda>cu. upper (get_or (c_customer_type cu) []) = upper ct) (filter Pa rs)
                       else filter Pa rs)
         | None \<Rightarrow> filter Pa rs) = filter P rs"
proof (cases ctype)
  case None then show ?thesis by auto
next
  case (Some ct)
  show ?thesis unfolding Some option.case by (rule filter_stage)
qed

lemma apply_filters_filter: "\<exists>P. apply_filters rs city min_moves ctype has_apartment = filter P rs"
proof -
  have rs: "rs = filter (\<lambda>_. True) rs" by simp
  obtain P1 where p1: "(case min_moves of
           Some m \<Rightarrow> (if m \<noteq> 0 then filter (\<lambda>cu. m \<le> get_or (c_move_count cu) 0) rs else rs)
         | None \<Rightarrow> rs) = filter P1 rs"
    using moves_stage[where min_moves = min_moves and rs = rs] by blast
  obtain P2 where p2: "(case city of
           Some ci \<Rightarrow> (if ci \<noteq> [] then
                         filter (\<lambda>cu. str_in (lower ci) (lower (get_or (c_city cu) []))) (filter P1 rs)
                       else filter P1 rs)
         | None \<Rightarrow> filter P1 rs) = filter P2 rs"
    using city_stage[where city = city and Pa = P1 and rs = rs] by blast
  obtain P3 where p3: "(case ctype of
           Some ct \<Rightarrow> (if ct \<noteq> [] then
                         filter (\<lambda>cu. upper (get_or (c_customer_type cu) []) = upper ct) (filter P2 rs)
                       else filter P2 rs)
         | None \<Rightarrow> filter P2 rs) = filter P3 rs"
    using type_stage[where ctype = ctype and Pa = P2 and rs = rs] by blast
  obtain P4 where p4: "(if has_apartment = Some True then
                   filter (\<lambda>cu. str_in ''apt'' (lower (get_or (c_address cu) []))
                                \<or> str_in ''unit'' (lower (get_or (c_address cu) []))) (filter P3 rs)
                 else filter P3 rs) = filter P4 rs"
    using filter_stage[where b = "has_apartment = Some True" and Pa = P3 and rs = rs] by blast
  show ?thesis unfolding apply_filters_def Let_def p1 p2 p3 p4 by blast
qed

lemma search_base:
  assumes "\<forall>s. st = Some s \<and> s \<noteq> [] \<longrightarrow> upper s \<in> set (dict_keys (by_state (load cs ds0)))"
  shows "search (load cs ds0) st city min_moves ctype has_apartment limit
         = finish_search
             (apply_filters
                (case st of
                   Some s \<Rightarrow> (if s \<noteq> [] then filter (\<lambda>cu. state_of cu = upper s) cs else cs)
                 | None \<Rightarrow> cs)
                city min_moves ctype has_apartment) limit"
proof (cases st)
  case None
  then show ?thesis unfolding search_def by (simp add: load_fields)
next
  case (Some s)
  show ?thesis
  proof (cases "s = []")
    case True
    then show ?thesis unfolding search_def using Some by (simp add: load_fields)
  next
    case False
    then have k: "upper s \<in> set (dict_keys (by_state (load cs ds0)))" using assms Some by simp
    show ?thesis unfolding search_def using Some False k load_state_list[OF k]
      by (simp add: Let_def)
  qed
qed

text \<open>
  Claim C9. \<open>search\<close> applies no cap of its own to the limit. On a loaded data source and
  with an available state (or no state filter), the matching records \<open>M\<close> are the loaded
  records that pass the filters, in data order; without a limit or with the limit 0 all
  of them are returned, and a positive limit \<open>n\<close>, whatever its size, returns the first
  \<open>n\<close> of them.
\<close>

theorem search_limit_not_capped:
  assumes "\<forall>s. st = Some s \<and> s \<noteq> [] \<longrightarrow> upper s \<in> set (dict_keys (by_state (load cs ds0)))"
      and "M = apply_filters
                 (case st of
                    Some s \<Rightarrow> (if s \<noteq> [] then filter (\<lambda>cu. state_of cu = upper s) cs else cs)
                  | None \<Rightarrow> cs)
                 city min_moves ctype has_apartment"
  shows "search (load cs ds0) st city min_moves ctype has_apartment None = SearchSuccess (length M) M
       \<and> search (load cs ds0) st city min_moves ctype has_apartment (Some 0) = SearchSuccess (length M) M
       \<and> (0 < n \<longrightarrow> search (load cs ds0) st city min_moves ctype has_apartment (Some n)
                       = SearchSuccess (length M) (take (nat n) M))
       \<and> (\<exists>P. M = filter P cs)"
proof -
  have "\<exists>P. M = filter P cs"
  proof -
    obtain P where "M = filter P (case st of
                    Some s \<Rightarrow> (if s \<noteq> [] then filter (\<lambda>cu. state_of cu = upper s) cs else cs)
                  | None \<Rightarrow> cs)"
      unfolding assms(2) using apply_filters_filter by blast
    then show ?thesis by (cases st) (auto split: if_splits intro: exI[of _ P])
  qed
  then show ?thesis
    unfolding search_base[OF assms(1)] assms(2)[symmetric] by (simp add: finish_search_simps)
qed



theorem search_limit_not_capped_witness:
  "search (load (replicate 150 (example_customer ''CRID-000001'' ''Ann Lee'' ''Reno'' ''NV'')) new_data_source)
      None None None None None (Some 120)
     = SearchSuccess 150 (replicate 120 (example_customer ''CRID-000001'' ''Ann Lee'' ''Reno'' ''NV''))
   \<and> search (load (replicate 150 (example_customer ''CRID-000001'' ''Ann Lee'' ''Reno'' ''NV'')) new_data_source)
      None None None None None None
     = SearchSuccess 150 (replicate 150 (example_customer ''CRID-000001'' ''Ann Lee'' ''Reno'' ''NV''))
   \<and> search (load (replicate 150 (example_customer ''CRID-000001'' ''Ann Lee'' ''Reno'' ''NV'')) new_data_source)
      None None None None None (Some 0)
     = SearchSuccess 150 (replicate 150 (example_customer ''CRID-000001'' ''Ann Lee'' ''Reno'' ''NV''))"
proof -
  let ?c = "example_customer ''CRID-000001'' ''Ann Lee'' ''Reno'' ''NV''"
  let ?cs = "replicate 150 ?c"
  have h1: "\<forall>s. (None :: string option) = Some s \<and> s \<noteq> []
              \<longrightarrow> upper s \<in> set (dict_keys (by_state (load ?cs new_data_source)))"
    by simp
  have h2: "?cs = apply_filters
                 (case (None :: string option) of
                    Some s \<Rightarrow> (if s \<noteq> [] then filter (\<lambda>cu. state_of cu = upper s) ?cs else ?cs)
                  | None \<Rightarrow> ?cs)
                 None None None None"
    by (simp add: apply_filters_def)
  have n: "(0::int) < 120" by simp
  show ?thesis using search_limit_not_capped[OF h1 h2, of 120] n by simp
qed

lemma dict_set_subset: "set (dict_set d k v) \<subseteq> insert (k, v) (set d)"
  by (induction d k v rule: dict_set.induct) auto

lemma dict_get_mem: "dict_get d k = Some v \<Longrightarrow> (k, v) \<in> set d"
  by (induction d k rule: dict_get.induct) (auto split: if_splits)

lemma index_crid_truthy:
  "\<forall>(k, v) \<in> set acc. customer_truthy v \<Longrightarrow> \<forall>(k, v) \<in> set (foldl index_crid acc cs). customer_truthy v"
proof (induction cs arbitrary: acc)
  case Nil then show ?case by simp
next
  case (Cons cu cs)
  have "\<forall>(k, v) \<in> set (index_crid acc cu). customer_truthy v"
  proof (cases "c_crid cu")
    case None then show ?thesis using Cons.prems by (simp add: index_crid_def)
  next
    case (Some k)
    then have "customer_truthy cu" by (simp add: customer_truthy_def)
    then show ?thesis using Cons.prems dict_set_subset[of acc k cu] Some
      by (auto simp: index_crid_def)
  qed
  then show ?case using Cons.IH by simp
qed

lemma first_hit_iff:
  assumes "\<forall>(k, v) \<in> set idx. customer_truthy v"
  shows "(first_hit idx fmts \<noteq> None) \<longleftrightarrow> (\<exists>fmt \<in> set fmts. fmt \<in> set (dict_keys idx))"
proof (induction fmts)
  case Nil then show ?case by simp
next
  case (Cons fmt fmts)
  show ?case
  proof (cases "dict_get idx fmt")
    case None
    then have "fmt \<notin> set (dict_keys idx)" using dict_get_None_iff by metis
    then show ?thesis using None Cons.IH by simp
  next
    case (Some v)
    then have "customer_truthy v" using assms dict_get_mem by fastforce
    moreover have "fmt \<in> set (dict_keys idx)" using Some dict_get_None_iff[of idx fmt] by simp
    ultimately show ?thesis using Some by simp
  qed
qed

text \<open>
  Claim C10. On a loaded data source, \<open>lookup\<close> succeeds if and only if the upper-cased
  input starts with \<open>CRID-\<close> and one of the four formats (the rest of the input
  zero-filled to width 6, 5 or 3, or the input as it is) is a key of the CRID index. A
  bare number and a space-separated form are not found, whatever the index holds.
\<close>

theorem lookup_found_iff:
  "((\<exists>data. lookup (load cs ds0) crid = LookupFound data)
      \<longleftrightarrow> (prefix ''CRID-'' (upper crid)
           \<and> (\<exists>fmt \<in> set [''CRID-'' @ zfill (drop 5 (upper crid)) 6,
                           ''CRID-'' @ zfill (drop 5 (upper crid)) 5,
                           ''CRID-'' @ zfill (drop 5 (upper crid)) 3,
                           upper crid].
                  fmt \<in> set (dict_keys (by_crid (load cs ds0))))))
   \<and> lookup (load cs ds0) ''42'' = LookupNotFound ''CRID 42 not found''
   \<and> lookup (load cs ds0) ''CRID 42'' = LookupNotFound ''CRID CRID 42 not found''"
proof -
  have t: "\<forall>(k, v) \<in> set (by_crid (load cs ds0)). customer_truthy v"
    unfolding load_fields by (rule index_crid_truthy) simp
  have a: "(\<exists>data. lookup (load cs ds0) crid = LookupFound data)
      \<longleftrightarrow> (prefix ''CRID-'' (upper crid)
           \<and> first_hit (by_crid (load cs ds0)) (crid_formats (upper crid)) \<noteq> None)"
    unfolding lookup_def by (auto simp: Let_def split: option.splits)
  have u1: "upper ''42'' = ''42''" by code_simp
  have u2: "upper ''CRID 42'' = ''CRID 42''" by code_simp
  have b: "lookup (load cs ds0) ''42'' = LookupNotFound ''CRID 42 not found''"
    unfolding lookup_def u1 by simp
  have c: "lookup (load cs ds0) ''CRID 42'' = LookupNotFound ''CRID CRID 42 not found''"
    unfolding lookup_def u2 by simp
  show ?thesis unfolding a first_hit_iff[OF t] using b c by (simp add: crid_formats_def Let_def)
qed


theorem lookup_found_iff_witness:
  "(\<exists>data. lookup (load example_customers new_data_source) ''crid-42'' = LookupFound data)
   \<and> prefix ''CRID-'' (upper ''crid-42'')
   \<and> ''CRID-'' @ zfill (drop 5 (upper ''crid-42'')) 6
        \<in> set (dict_keys (by_crid (load example_customers new_data_source)))
   \<and> lookup (load example_customers new_data_source) ''42'' = LookupNotFound ''CRID 42 not found''
   \<and> lookup (load example_customers new_data_source) ''CRID 42''
        = LookupNotFound ''CRID CRID 42 not found''"
proof -
  have p: "prefix ''CRID-'' (upper ''crid-42'')" by code_simp
  have k: "''CRID-'' @ zfill (drop 5 (upper ''crid-42'')) 6
             \<in> set (dict_keys (by_crid (load example_customers new_data_source)))"
    by code_simp
  show ?thesis
    using lookup_found_iff[of example_customers new_data_source "''crid-42''"] p k by simp
qed

subsection \<open>Router\<close>

lemma truthy_Some: "truthy v = Some s \<longleftrightarrow> v = Some s \<and> s \<noteq> []"
  unfolding truthy_def by (auto split: option.splits)

text \<open>
  Claim C3. When the guardrail check returns a blocked message for the stripped query,
  \<open>route\<close> answers with \<open>blocked = True\<close> and that message as the response text, and it
  neither reads or writes the cache nor saves a session: the cache, the session store and
  the log of store operations are as before the call.
\<close>

theorem route_blocked:
  assumes "guard_check env (strip query) flags = Some msg" and "msg \<noteq> []"
  shows "resp_blocked (fst (route env st query bypass_cache flags sid))
       \<and> resp_response (fst (route env st query bypass_cache flags sid)) = msg
       \<and> cache (snd (route env st query bypass_cache flags sid)) = cache st
       \<and> sessions (snd (route env st query bypass_cache flags sid)) = sessions st
       \<and> events (snd (route env st query bypass_cache flags sid)) = events st"
proof -
  have "truthy (guard_check env (strip query) flags) = Some msg"
    using assms by (simp add: truthy_Some)
  then show ?thesis unfolding route_def by (simp add: Let_def make_response_def)
qed

theorem route_blocked_witness:
  "guard_check example_collaborators (strip ''ssn for CRID-1'') None = Some ''SSN not accessible''
   \<and> ''SSN not accessible'' \<noteq> []
   \<and> resp_blocked (fst (route example_collaborators example_state ''ssn for CRID-1'' False None None))
   \<and> resp_response (fst (route example_collaborators example_state ''ssn for CRID-1'' False None None))
       = ''SSN not accessible''
   \<and> cache (snd (route example_collaborators example_state ''ssn for CRID-1'' False None None)) = []
   \<and> sessions (snd (route example_collaborators example_state ''ssn for CRID-1'' False None None)) = []
   \<and> events (snd (route example_collaborators example_state ''ssn for CRID-1'' False None None)) = []"
proof -
  have h1: "guard_check example_collaborators (strip ''ssn for CRID-1'') None = Some ''SSN not accessible''"
    by code_simp
  have h2: "''SSN not accessible'' \<noteq> []" by simp
  show ?thesis
    using route_blocked[OF h1 h2, of example_state False None] h1
    by (simp add: example_state_def)
qed

lemma route_nova_effects:
  "events (snd (route_nova env st q key sess)) =
     events st @
       (if resp_success (fst (route_nova env st q key sess)) then
          SessionSave (turns_after q (resp_response (fst (route_nova env st q key sess))) sess)
          # (if length (messages (turns_after q (resp_response (fst (route_nova env st q key sess))) sess)) \<le> 2
             then [CacheSet key (json_dumps_response env (resp_response (fst (route_nova env st q key sess))))]
             else [])
        else [])"
  unfolding route_nova_def turns_after_def
  by (simp add: Let_def make_response_def cache_set_def sessions_save_def)

lemma route_nova_route: "resp_route (fst (route_nova env st q key sess)) = NOVA"
  unfolding route_nova_def by (simp add: Let_def make_response_def)

lemma route_execute_effects:
  "events (snd (route_execute env st q key sess)) =
     events st @
       (if resp_success (fst (route_execute env st q key sess)) then
          SessionSave (turns_after q (resp_response (fst (route_execute env st q key sess))) sess)
          # (if length (messages (turns_after q (resp_response (fst (route_execute env st q key sess))) sess)) \<le> 2
             then [CacheSet key (json_dumps_response env (resp_response (fst (route_execute env st q key sess))))]
             else [])
        else [])"
proof -
  obtain rt tm where f: "find_route env q = (rt, tm)" by (cases "find_route env q") auto
  show ?thesis
  proof (cases "rt = DATABASE \<and> db_success env (db_execute env (get_or tm ''search_customers'') q)")
    case True
    then show ?thesis unfolding route_execute_def turns_after_def f
      by (simp add: Let_def make_response_def cache_set_def sessions_save_def)
  next
    case False
    then have eq: "route_execute env st q key sess = route_nova env st q key sess"
      unfolding route_execute_def f by (auto simp: Let_def)
    show ?thesis unfolding eq by (rule route_nova_effects)
  qed
qed

lemma route_execute_route: "resp_route (fst (route_execute env st q key sess)) \<noteq> CACHE_HIT"
proof -
  obtain rt tm where f: "find_route env q = (rt, tm)" by (cases "find_route env q") auto
  show ?thesis
  proof (cases "rt = DATABASE \<and> db_success env (db_execute env (get_or tm ''search_customers'') q)")
    case True
    then show ?thesis unfolding route_execute_def f by (simp add: Let_def make_response_def)
  next
    case False
    then have eq: "route_execute env st q key sess = route_nova env st q key sess"
      unfolding route_execute_def f by (auto simp: Let_def)
    show ?thesis unfolding eq route_nova_route by simp
  qed
qed

lemma route_cache_cases:
  "(\<exists>hit. route_cache env st q bypass_cache sess
           = ((make_response q (json_loads_response env hit) CACHE_HIT (session_id sess)) \<lparr> resp_cached := True \<rparr>,
              st\<lparr>events := events st @ [CacheGet (make_key env q)]\<rparr>)
         \<and> \<not> bypass_cache \<and> messages sess = [])
   \<or> (route_cache env st q bypass_cache sess
         = route_execute env (st\<lparr>events := events st @ [CacheGet (make_key env q)]\<rparr>) q (make_key env q) sess
       \<and> \<not> bypass_cache \<and> messages sess = [])
   \<or> (route_cache env st q bypass_cache sess = route_execute env st q (make_key env q) sess
       \<and> \<not> (\<not> bypass_cache \<and> messages sess = []))"
  unfolding route_cache_def cache_get_def
  by (cases "truthy (dict_get (cache st) (make_key env q))") (auto simp: Let_def)

lemma route_nova_cache:
  "cache (snd (route_nova env st q key sess)) =
     (if resp_success (fst (route_nova env st q key sess))
         \<and> length (messages (turns_after q (resp_response (fst (route_nova env st q key sess))) sess)) \<le> 2
      then dict_set (cache st) key (json_dumps_response env (resp_response (fst (route_nova env st q key sess))))
      else cache st)"
  unfolding route_nova_def turns_after_def
  by (simp add: Let_def make_response_def cache_set_def sessions_save_def)

lemma route_execute_cache:
  "cache (snd (route_execute env st q key sess)) =
     (if resp_success (fst (route_execute env st q key sess))
         \<and> length (messages (turns_after q (resp_response (fst (route_execute env st q key sess))) sess)) \<le> 2
      then dict_set (cache st) key (json_dumps_response env (resp_response (fst (route_execute env st q key sess))))
      else cache st)"
proof -
  obtain rt tm where f: "find_route env q = (rt, tm)" by (cases "find_route env q") auto
  show ?thesis
  proof (cases "rt = DATABASE \<and> db_success env (db_execute env (get_or tm ''search_customers'') q)")
    case True
    then show ?thesis unfolding route_execute_def turns_after_def f
      by (simp add: Let_def make_response_def cache_set_def sessions_save_def)
  next
    case False
    then have eq: "route_execute env st q key sess = route_nova env st q key sess"
      unfolding route_execute_def f by (auto simp: Let_def)
    show ?thesis unfolding eq by (rule route_nova_cache)
  qed
qed

lemma dict_get_set_same: "dict_get (dict_set d k v) k = Some v"
  by (induction d k v rule: dict_set.induct) auto

text \<open>What the later stages add to the log and to the cache, from any state.\<close>

lemma route_execute_policy:
  assumes "r = route_execute env st q key sess"
  shows "(\<exists>evs. events (snd r) = events st @ evs
            \<and> (\<forall>k. CacheGet k \<notin> set evs)
            \<and> (resp_success (fst r) \<longrightarrow>
                 ((\<exists>k v. CacheSet k v \<in> set evs)
                    \<longleftrightarrow> length (messages (turns_after q (resp_response (fst r)) sess)) \<le> 2))
            \<and> ((\<exists>k v. CacheSet k v \<in> set evs)
                  \<longrightarrow> dict_get (cache (snd r)) key = Some (json_dumps_response env (resp_response (fst r)))))"
proof -
  let ?t = "turns_after q (resp_response (fst r)) sess"
  let ?evs = "(if resp_success (fst r) then
          SessionSave ?t
          # (if length (messages ?t) \<le> 2
             then [CacheSet key (json_dumps_response env (resp_response (fst r)))]
             else [])
        else [])"
  have e: "events (snd r) = events st @ ?evs" unfolding assms by (rule route_execute_effects)
  have c: "cache (snd r) =
     (if resp_success (fst r) \<and> length (messages ?t) \<le> 2
      then dict_set (cache st) key (json_dumps_response env (resp_response (fst r)))
      else cache st)" unfolding assms by (rule route_execute_cache)
  have g: "\<forall>k. CacheGet k \<notin> set ?evs" by simp
  have w: "resp_success (fst r) \<longrightarrow>
        ((\<exists>k v. CacheSet k v \<in> set ?evs) \<longleftrightarrow> length (messages ?t) \<le> 2)" by simp
  have d: "(\<exists>k v. CacheSet k v \<in> set ?evs)
             \<longrightarrow> dict_get (cache (snd r)) key = Some (json_dumps_response env (resp_response (fst r)))"
    unfolding c by (simp add: dict_get_set_same split: if_splits)
  show ?thesis using e g w d by blast
qed

text \<open>
  Claim C5. In one call of \<open>route\<close>, the cache is read only when \<open>bypass_cache\<close> is false
  and the session has no prior messages. After a successful answer of the database route
  or of the AI pipeline, the response is written to the cache, under the key of the
  stripped query, exactly when the session holds at most two messages once the user turn
  and the assistant turn are appended.
\<close>

theorem route_cache_policy:
  assumes "events st = []"
      and "r = route env st query bypass_cache flags sid"
      and "sess = sessions_get env (sessions st) sid"
  shows "((\<exists>k. CacheGet k \<in> set (events (snd r))) \<longrightarrow> \<not> bypass_cache \<and> messages sess = [])
       \<and> (resp_success (fst r) \<and> resp_route (fst r) \<noteq> CACHE_HIT \<longrightarrow>
            ((\<exists>k v. CacheSet k v \<in> set (events (snd r)))
               \<longleftrightarrow> length (messages (turns_after (strip query) (resp_response (fst r)) sess)) \<le> 2)
            \<and> ((\<exists>k v. CacheSet k v \<in> set (events (snd r)))
               \<longrightarrow> dict_get (cache (snd r)) (make_key env (strip query))
                     = Some (json_dumps_response env (resp_response (fst r)))))"
proof (cases "truthy (guard_check env (strip query) flags)")
  case (Some blocked)
  then have "r = ((make_response (strip query) blocked CACHE_HIT (session_id sess)) \<lparr> resp_blocked := True \<rparr>, st)"
    unfolding assms(2,3) route_def by (simp add: Let_def)
  then show ?thesis using assms(1) by (simp add: make_response_def)
next
  case None
  let ?q = "strip query"
  let ?key = "make_key env ?q"
  let ?st1 = "st\<lparr>events := events st @ [CacheGet ?key]\<rparr>"
  have rc: "r = route_cache env st ?q bypass_cache sess"
    unfolding assms(2,3) route_def using None by (simp add: Let_def)
  consider
    (hit) hit where "r = ((make_response ?q (json_loads_response env hit) CACHE_HIT (session_id sess)) \<lparr> resp_cached := True \<rparr>, ?st1)"
      "\<not> bypass_cache" "messages sess = []"
  | (miss) "r = route_execute env ?st1 ?q ?key sess" "\<not> bypass_cache" "messages sess = []"
  | (skip) "r = route_execute env st ?q ?key sess" "\<not> (\<not> bypass_cache \<and> messages sess = [])"
    using route_cache_cases[of env st ?q bypass_cache sess] unfolding rc by blast
  then show ?thesis
  proof cases
    case hit
    then show ?thesis using assms(1) by (simp add: make_response_def)
  next
    case miss
    obtain evs where e: "events (snd r) = events ?st1 @ evs"
      and w: "resp_success (fst r) \<longrightarrow>
                 ((\<exists>k v. CacheSet k v \<in> set evs)
                    \<longleftrightarrow> length (messages (turns_after ?q (resp_response (fst r)) sess)) \<le> 2)"
      and d: "(\<exists>k v. CacheSet k v \<in> set evs)
                  \<longrightarrow> dict_get (cache (snd r)) ?key = Some (json_dumps_response env (resp_response (fst r)))"
      using route_execute_policy[OF miss(1)] by blast
    have "set (events (snd r)) = insert (CacheGet ?key) (set evs)"
      unfolding e using assms(1) by simp
    then have s: "(\<exists>k v. CacheSet k v \<in> set (events (snd r))) \<longleftrightarrow> (\<exists>k v. CacheSet k v \<in> set evs)"
      by auto
    show ?thesis unfolding s using w d miss(2,3) by blast
  next
    case skip
    obtain evs where e: "events (snd r) = events st @ evs"
      and g: "\<forall>k. CacheGet k \<notin> set evs"
      and w: "resp_success (fst r) \<longrightarrow>
                 ((\<exists>k v. CacheSet k v \<in> set evs)
                    \<longleftrightarrow> length (messages (turns_after ?q (resp_response (fst r)) sess)) \<le> 2)"
      and d: "(\<exists>k v. CacheSet k v \<in> set evs)
                  \<longrightarrow> dict_get (cache (snd r)) ?key = Some (json_dumps_response env (resp_response (fst r)))"
      using route_execute_policy[OF skip(1)] by blast
    have s: "events (snd r) = evs" unfolding e using assms(1) by simp
    show ?thesis unfolding s using g w d by blast
  qed
qed


theorem route_cache_policy_witness:
  "events example_state = []
   \<and> CacheGet ''show me customer crid-000042''
       \<in> set (events (snd (route example_collaborators example_state ''Show me customer CRID-000042'' False None None)))
   \<and> messages (sessions_get example_collaborators (sessions example_state) None) = []
   \<and> resp_success (fst (route example_collaborators example_state ''Show me customer CRID-000042'' False None None))
   \<and> resp_route (fst (route example_collaborators example_state ''Show me customer CRID-000042'' False None None))
       = DATABASE
   \<and> (\<exists>k v. CacheSet k v
         \<in> set (events (snd (route example_collaborators example_state ''Show me customer CRID-000042'' False None None))))
   \<and> dict_get (cache (snd (route example_collaborators example_state ''Show me customer CRID-000042'' False None None)))
        (make_key example_collaborators (strip ''Show me customer CRID-000042''))
       = Some (json_dumps_response example_collaborators
                (resp_response (fst (route example_collaborators example_state ''Show me customer CRID-000042'' False None None))))"
proof -
  let ?r = "route example_collaborators example_state ''Show me customer CRID-000042'' False None None"
  let ?sess = "sessions_get example_collaborators (sessions example_state) None"
  have h1: "events example_state = []" by (simp add: example_state_def)
  have g: "CacheGet ''show me customer crid-000042'' \<in> set (events (snd ?r))" by code_simp
  have m: "messages ?sess = []" by code_simp
  have s: "resp_success (fst ?r)" by code_simp
  have d: "resp_route (fst ?r) = DATABASE" by code_simp
  have l: "length (messages (turns_after (strip ''Show me customer CRID-000042'') (resp_response (fst ?r)) ?sess)) \<le> 2"
    by code_simp
  show ?thesis
    using route_cache_policy[OF h1 refl refl, of example_collaborators "''Show me customer CRID-000042''" False None None]
          h1 g m s d l
    by simp
qed

end
